theory Spec2Isabelle
  imports Complex_Main "HOL-Library.Sublist" "HOL-Library.Log_Nat"
begin

section \<open>Data model (src/types/content.ts, src/types/portfolio.ts)\<close>

text \<open>
  Closed string unions of the TypeScript sources become datatypes.  A JavaScript number
  is an IEEE 754 double; it is modelled as the rational number it denotes, and the
  arithmetic of the scorer rounds every result to a double (section on doubles below).
\<close>

datatype Category =
  Finance | Entertainment | Design | Legal | Tech | Marketing | Influencers | Business

datatype ContentType = Video | Image | Pdf | Text | Code | External_link

datatype ContentSource =
  Youtube | Github | Upload | Input | Instagram | Linkedin | Tiktok | Twitter
  | Behance | Dribbble | Website | Other

datatype TextType = Bio | Intro | About | Testimonial | Description | General

text \<open>
  \<open>ExtractedData\<close>: every field is optional in the source (\<open>None\<close> is
  \<open>undefined\<close>).  The record carries the fields that the scorer, the section
  filters and the block-type selector read.
\<close>

record ExtractedData =
  thumbnail_url :: "string option"
  view_count :: "rat option"
  like_count :: "rat option"
  duration_seconds :: "rat option"
  stars :: "rat option"
  readme_preview :: "string option"
  is_profile :: "bool option"
  width :: "rat option"
  height :: "rat option"
  page_count :: "rat option"
  extracted_text :: "string option"
  is_resume :: "bool option"
  text_type :: "TextType option"

text \<open>
  \<open>NormalizedContent\<close>.  The field \<open>created_at\<close> holds the time value, in
  milliseconds since the epoch, that \<open>new Date(content.created_at).getTime()\<close>
  yields; \<open>None\<close> stands for a string that is not a date (time value NaN).
\<close>

record NormalizedContent =
  content_id :: string
  type :: ContentType
  source :: ContentSource
  original_url :: "string option"
  file_path :: "string option"
  title :: string
  description :: string
  extracted_data :: "ExtractedData option"
  created_at :: "int option"

record ContentScores =
  relevance :: rat
  quality :: rat
  credibility :: rat
  engagement :: rat
  freshness :: rat

record ScoredContent = NormalizedContent +
  scores :: ContentScores
  final_score :: rat

section \<open>JavaScript primitives used by the code\<close>

text \<open>\<open>content.extracted_data?.f\<close>: optional chaining into an optional field.\<close>

definition xd :: "'a NormalizedContent_scheme \<Rightarrow> (ExtractedData \<Rightarrow> 'b option) \<Rightarrow> 'b option" where
  "xd content f = (case extracted_data content of None \<Rightarrow> None | Some d \<Rightarrow> f d)"

text \<open>Truthiness of an optional number, string and boolean in a condition.\<close>

definition truthy_num :: "rat option \<Rightarrow> bool" where
  "truthy_num v = (case v of None \<Rightarrow> False | Some n \<Rightarrow> n \<noteq> 0)"

definition truthy_str :: "string option \<Rightarrow> bool" where
  "truthy_str v = (case v of None \<Rightarrow> False | Some s \<Rightarrow> s \<noteq> [])"

definition truthy_bool :: "bool option \<Rightarrow> bool" where
  "truthy_bool v = (case v of None \<Rightarrow> False | Some b \<Rightarrow> b)"

text \<open>\<open>v || d\<close> on an optional string: the empty string is falsy too.\<close>

definition or_str :: "string option \<Rightarrow> string \<Rightarrow> string" where
  "or_str v d = (case v of None \<Rightarrow> d | Some s \<Rightarrow> if s = [] then d else s)"

text \<open>A comparison \<open>v > k\<close> or \<open>v >= k\<close> with \<open>v\<close> undefined is false.\<close>

definition gt_num :: "rat option \<Rightarrow> rat \<Rightarrow> bool" where
  "gt_num v k = (case v of None \<Rightarrow> False | Some n \<Rightarrow> n > k)"

definition ge_num :: "rat option \<Rightarrow> rat \<Rightarrow> bool" where
  "ge_num v k = (case v of None \<Rightarrow> False | Some n \<Rightarrow> n \<ge> k)"

text \<open>\<open>String.prototype.toLowerCase\<close> on the ASCII letters, and \<open>String.prototype.includes\<close>.\<close>

definition toLowerChar :: "char \<Rightarrow> char" where
  "toLowerChar c =
     (if 65 \<le> (of_char c :: nat) \<and> (of_char c :: nat) \<le> 90
      then char_of ((of_char c :: nat) + 32) else c)"

definition toLowerCase :: "string \<Rightarrow> string" where
  "toLowerCase s = map toLowerChar s"

fun startsWith :: "string \<Rightarrow> string \<Rightarrow> bool" where
  "startsWith s [] = True"
| "startsWith [] (k # ks) = False"
| "startsWith (c # cs) (k # ks) = (c = k \<and> startsWith cs ks)"

fun includes_str :: "string \<Rightarrow> string \<Rightarrow> bool" where
  "includes_str [] k = (k = [])"
| "includes_str (c # cs) k = (startsWith (c # cs) k \<or> includes_str cs k)"

text \<open>\<open>Math.round\<close>: the nearest integer, a half rounded towards plus infinity.\<close>

definition math_round :: "rat \<Rightarrow> rat" where
  "math_round x = of_int \<lfloor>x + 1 / 2\<rfloor>"

subsection \<open>Doubles\<close>

text \<open>
  Every arithmetic operation on numbers yields the double nearest to the exact result,
  a tie going to the double with an even significand.  \<open>expo x\<close> is the binary
  exponent of a positive \<open>x\<close> (\<open>2 ^ expo x \<le> x < 2 ^ (expo x + 1)\<close>), computed
  from the bit lengths of numerator and denominator; a double in that binade is a
  multiple of \<open>ulp x = 2 ^ (expo x - 52)\<close>, and \<open>rne\<close> rounds to the nearest integer,
  ties to even.  The exponent range is left unbounded: the scorer produces no infinity,
  and the numbers that could leave the range of normal doubles (the like ratio and the
  age of an item) are only compared with constants, which the rounding does not change.
  The one NaN of the scorer, the age of an item with an invalid date, is a separate
  case of \<open>scoreFreshness\<close>.  A decimal literal \<open>0.3\<close> of the source denotes
  \<open>fl (3/10)\<close>; an integer literal denotes itself.
\<close>

definition expo :: "rat \<Rightarrow> int" where
  "expo x =
     (case quotient_of x of
        (p, q) \<Rightarrow>
          (let d = bitlen p - bitlen q in if 2 powi d \<le> x then d else d - 1))"

definition rne :: "rat \<Rightarrow> int" where
  "rne q =
     (let f = \<lfloor>q\<rfloor>; r = q - of_int f
      in if r < 1/2 then f else if 1/2 < r then f + 1 else if even f then f else f + 1)"

definition ulp :: "rat \<Rightarrow> rat" where
  "ulp x = 2 powi (expo x - 52)"

definition fl_pos :: "rat \<Rightarrow> rat" where
  "fl_pos x = of_int (rne (x / ulp x)) * ulp x"

definition fl :: "rat \<Rightarrow> rat" where
  "fl x = (if x = 0 then 0 else if 0 < x then fl_pos x else - fl_pos (- x))"

text \<open>The operators \<open>+\<close>, \<open>-\<close>, \<open>*\<close> and \<open>/\<close> on doubles.\<close>

definition fadd :: "rat \<Rightarrow> rat \<Rightarrow> rat" where
  "fadd a b = fl (a + b)"

definition fsub :: "rat \<Rightarrow> rat \<Rightarrow> rat" where
  "fsub a b = fl (a - b)"

definition fmul :: "rat \<Rightarrow> rat \<Rightarrow> rat" where
  "fmul a b = fl (a * b)"

definition fdiv :: "rat \<Rightarrow> rat \<Rightarrow> rat" where
  "fdiv a b = fl (a / b)"

text \<open>
  \<open>Array.prototype.sort(cmp)\<close>.  The language standard makes the sort stable; for
  a comparator that is a consistent ordering the result is the one an insertion sort
  yields that puts each element in front of the first later element it does not
  exceed.
\<close>

fun insert_cmp :: "('a \<Rightarrow> 'a \<Rightarrow> 'b::linordered_idom) \<Rightarrow> 'a \<Rightarrow> 'a list \<Rightarrow> 'a list" where
  "insert_cmp cmp x [] = [x]"
| "insert_cmp cmp x (y # ys) =
     (if cmp x y \<le> 0 then x # y # ys else y # insert_cmp cmp x ys)"

definition array_sort :: "('a \<Rightarrow> 'a \<Rightarrow> 'b::linordered_idom) \<Rightarrow> 'a list \<Rightarrow> 'a list" where
  "array_sort cmp xs = foldr (insert_cmp cmp) xs []"

section \<open>Scoring engine (src/services/scoring.ts)\<close>

fun CATEGORY_WEIGHTS :: "Category \<Rightarrow> ContentScores" where
  "CATEGORY_WEIGHTS Finance =
     \<lparr>relevance = fl (25/100), quality = fl (20/100), credibility = fl (35/100), engagement = fl (10/100), freshness = fl (10/100)\<rparr>"
| "CATEGORY_WEIGHTS Entertainment =
     \<lparr>relevance = fl (20/100), quality = fl (30/100), credibility = fl (10/100), engagement = fl (30/100), freshness = fl (10/100)\<rparr>"
| "CATEGORY_WEIGHTS Design =
     \<lparr>relevance = fl (25/100), quality = fl (35/100), credibility = fl (10/100), engagement = fl (20/100), freshness = fl (10/100)\<rparr>"
| "CATEGORY_WEIGHTS Legal =
     \<lparr>relevance = fl (20/100), quality = fl (15/100), credibility = fl (40/100), engagement = fl (5/100), freshness = fl (20/100)\<rparr>"
| "CATEGORY_WEIGHTS Tech =
     \<lparr>relevance = fl (30/100), quality = fl (25/100), credibility = fl (20/100), engagement = fl (15/100), freshness = fl (10/100)\<rparr>"
| "CATEGORY_WEIGHTS Marketing =
     \<lparr>relevance = fl (25/100), quality = fl (20/100), credibility = fl (15/100), engagement = fl (30/100), freshness = fl (10/100)\<rparr>"
| "CATEGORY_WEIGHTS Influencers =
     \<lparr>relevance = fl (15/100), quality = fl (25/100), credibility = fl (10/100), engagement = fl (40/100), freshness = fl (10/100)\<rparr>"
| "CATEGORY_WEIGHTS Business =
     \<lparr>relevance = fl (25/100), quality = fl (15/100), credibility = fl (35/100), engagement = fl (10/100), freshness = fl (15/100)\<rparr>"

fun CATEGORY_KEYWORDS :: "Category \<Rightarrow> string list" where
  "CATEGORY_KEYWORDS Finance =
     [''finance'', ''financial'', ''investment'', ''banking'', ''accounting'', ''cfo'',
      ''revenue'', ''profit'', ''roi'', ''portfolio'', ''audit'', ''tax'', ''budget'',
      ''forecast'', ''valuation'', ''equity'', ''debt'', ''capital'', ''cash flow'']"
| "CATEGORY_KEYWORDS Entertainment =
     [''entertainment'', ''film'', ''music'', ''video'', ''content'', ''creative'',
      ''production'', ''acting'', ''directing'', ''streaming'', ''media'', ''show'',
      ''performance'', ''artist'', ''celebrity'', ''viral'', ''views'']"
| "CATEGORY_KEYWORDS Design =
     [''design'', ''ui'', ''ux'', ''graphic'', ''visual'', ''brand'', ''logo'', ''creative'',
      ''interface'', ''prototype'', ''figma'', ''sketch'', ''adobe'', ''illustration'',
      ''typography'', ''color'', ''layout'', ''wireframe'', ''aesthetic'']"
| "CATEGORY_KEYWORDS Legal =
     [''legal'', ''law'', ''attorney'', ''lawyer'', ''litigation'', ''contract'',
      ''compliance'', ''regulation'', ''court'', ''case'', ''settlement'', ''rights'',
      ''intellectual property'', ''patent'', ''trademark'', ''counsel'']"
| "CATEGORY_KEYWORDS Tech =
     [''tech'', ''technology'', ''software'', ''engineering'', ''developer'', ''code'',
      ''programming'', ''api'', ''cloud'', ''data'', ''ai'', ''machine learning'',
      ''startup'', ''product'', ''architecture'', ''system'', ''scale'', ''devops'']"
| "CATEGORY_KEYWORDS Marketing =
     [''marketing'', ''growth'', ''seo'', ''sem'', ''social'', ''campaign'', ''brand'',
      ''conversion'', ''analytics'', ''content'', ''digital'', ''advertising'',
      ''engagement'', ''reach'', ''impression'', ''click'', ''lead'', ''funnel'']"
| "CATEGORY_KEYWORDS Influencers =
     [''influencer'', ''creator'', ''followers'', ''viral'', ''social media'',
      ''instagram'', ''tiktok'', ''youtube'', ''brand deal'', ''sponsorship'',
      ''engagement rate'', ''audience'', ''content creator'', ''reach'']"
| "CATEGORY_KEYWORDS Business =
     [''business'', ''strategy'', ''consulting'', ''management'', ''operations'',
      ''startup'', ''entrepreneur'', ''ceo'', ''founder'', ''leadership'', ''growth'',
      ''scale'', ''revenue'', ''team'', ''process'', ''efficiency'', ''optimization'']"

text \<open>\<open>scoreRelevance\<close>: keyword matches over five, capped, plus a type boost.\<close>

definition searchText :: "'a NormalizedContent_scheme \<Rightarrow> string" where
  "searchText content =
     (let extractedText = or_str (xd content extracted_text) []
      in toLowerCase (title content @ '' '' @ description content @ '' '' @ extractedText))"

definition matchCount :: "'a NormalizedContent_scheme \<Rightarrow> Category \<Rightarrow> nat" where
  "matchCount content category =
     length (filter (\<lambda>keyword. includes_str (searchText content) (toLowerCase keyword))
                    (CATEGORY_KEYWORDS category))"

definition typeBoost :: "'a NormalizedContent_scheme \<Rightarrow> Category \<Rightarrow> rat" where
  "typeBoost content category =
     (let b0 = 0;
          b1 = (if category = Tech \<and> source content = Github then fl (2/10) else b0);
          b2 = (if category = Entertainment \<and> type content = Video then fl (2/10) else b1);
          b3 = (if category = Design \<and> type content = Image then fl (2/10) else b2);
          b4 = (if category = Finance \<and> type content = Pdf then fl (1/10) else b3)
      in b4)"

definition scoreRelevance :: "'a NormalizedContent_scheme \<Rightarrow> Category \<Rightarrow> rat" where
  "scoreRelevance content category =
     (let relevance = min (fdiv (of_nat (matchCount content category)) 5) 1
      in min (fadd relevance (typeBoost content category)) 1)"

text \<open>\<open>if (c) score += d\<close> (with \<open>d\<close> negative for \<open>-=\<close>).\<close>

definition bump :: "bool \<Rightarrow> rat \<Rightarrow> rat \<Rightarrow> rat" where
  "bump c d score = (if c then fadd score d else score)"

definition scoreQuality :: "'a NormalizedContent_scheme \<Rightarrow> rat" where
  "scoreQuality content =
     (let w = xd content width; h = xd content height;
          s0 = fl (5/10);
          s1 = bump (truthy_str (xd content thumbnail_url)) (fl (1/10)) s0;
          s2 = bump (description content \<noteq> [] \<and> length (description content) > 50) (fl (1/10)) s1;
          s3 = bump (type content = Video \<and> truthy_num w \<and> truthy_num h
                     \<and> (ge_num w 1280 \<or> ge_num h 720)) (fl (15/100)) s2;
          s4 = bump (type content = Video \<and> truthy_num w \<and> truthy_num h
                     \<and> (ge_num w 3840 \<or> ge_num h 2160)) (fl (1/10)) s3;
          s5 = bump (type content = Video \<and> truthy_num (xd content duration_seconds)
                     \<and> gt_num (xd content duration_seconds) 0) (fl (1/10)) s4;
          s6 = bump (type content = Image \<and> truthy_num w \<and> truthy_num h
                     \<and> ge_num w 1000 \<and> ge_num h 1000) (fl (15/100)) s5;
          s7 = bump (type content = Pdf \<and> truthy_str (xd content extracted_text)) (fl (15/100)) s6;
          s8 = bump (type content = Pdf \<and> truthy_str (xd content extracted_text)
                     \<and> truthy_num (xd content page_count)
                     \<and> gt_num (xd content page_count) 1) (fl (5/100)) s7;
          s9 = bump (source content = Github \<and> truthy_str (xd content readme_preview)
                     \<and> length (or_str (xd content readme_preview) []) > 200) (fl (15/100)) s8
      in min s9 1)"

definition scoreCredibility :: "'a NormalizedContent_scheme \<Rightarrow> rat" where
  "scoreCredibility content =
     (let trustedSources = [Youtube, Github];
          views = xd content view_count;
          stars = xd content stars;
          s0 = fl (3/10);
          s1 = bump (source content \<in> set trustedSources) (fl (2/10)) s0;
          s2 = bump (source content = Youtube \<and> truthy_num views \<and> gt_num views 1000) (fl (1/10)) s1;
          s3 = bump (source content = Youtube \<and> truthy_num views \<and> gt_num views 10000) (fl (1/10)) s2;
          s4 = bump (source content = Youtube \<and> truthy_num views \<and> gt_num views 100000) (fl (1/10)) s3;
          s5 = bump (source content = Github \<and> truthy_num stars \<and> gt_num stars 10) (fl (1/10)) s4;
          s6 = bump (source content = Github \<and> truthy_num stars \<and> gt_num stars 100) (fl (1/10)) s5;
          s7 = bump (source content = Github \<and> truthy_num stars \<and> gt_num stars 1000) (fl (15/100)) s6;
          s8 = bump (type content = Pdf) (fl (15/100)) s7;
          s9 = bump (type content = External_link) (- fl (1/10)) s8
      in max 0 (min s9 1))"

text \<open>The like ratio \<open>likes / views\<close> is only computed when both are truthy.\<close>

definition likeRatio :: "rat option \<Rightarrow> rat option \<Rightarrow> rat option" where
  "likeRatio likes views =
     (case (likes, views) of
        (Some l, Some v) \<Rightarrow> if l \<noteq> 0 \<and> v \<noteq> 0 then Some (fdiv l v) else None
      | _ \<Rightarrow> None)"

definition scoreEngagement :: "'a NormalizedContent_scheme \<Rightarrow> rat" where
  "scoreEngagement content =
     (let views = xd content view_count;
          likes = xd content like_count;
          socialPlatforms = [Instagram, Tiktok, Linkedin];
          s0 = fl (3/10);
          s1 = bump (type content = Video) (fl (25/100)) s0;
          s2 = bump (type content = Image) (fl (2/10)) s1;
          s3 = bump (source content = Youtube \<and> truthy_num views \<and> gt_num views 10000) (fl (15/100)) s2;
          s4 = bump (source content = Youtube \<and> truthy_num views \<and> gt_num views 100000) (fl (15/100)) s3;
          s5 = bump (source content = Youtube \<and> gt_num (likeRatio likes views) (fl (3/100))) (fl (1/10)) s4;
          s6 = bump (type content = External_link \<and> source content \<in> set socialPlatforms) (fl (15/100)) s5;
          s7 = bump (type content = Text \<or> type content = Pdf) (- fl (1/10)) s6
      in max 0 (min s7 1))"

text \<open>
  \<open>scoreFreshness\<close> reads the clock: \<open>now\<close> is the time value of \<open>new Date()\<close>
  in milliseconds.  With an invalid \<open>created_at\<close> the age is NaN, every comparison is
  false and the last \<open>return\<close> is reached.
\<close>

definition ageInDays :: "int \<Rightarrow> int \<Rightarrow> rat" where
  "ageInDays now createdAt = fdiv (fsub (of_int now) (of_int createdAt)) (1000 * 60 * 60 * 24)"

definition scoreFreshness :: "int \<Rightarrow> 'a NormalizedContent_scheme \<Rightarrow> rat" where
  "scoreFreshness now content =
     (case created_at content of
        None \<Rightarrow> fl (2/10)
      | Some createdAt \<Rightarrow>
          (if ageInDays now createdAt < 30 then 1
           else if ageInDays now createdAt < 90 then fl (8/10)
           else if ageInDays now createdAt < 365 then fl (6/10)
           else if ageInDays now createdAt < 730 then fl (4/10)
           else fl (2/10)))"

definition weightedSum :: "ContentScores \<Rightarrow> ContentScores \<Rightarrow> rat" where
  "weightedSum s weights =
     fadd (fadd (fadd (fadd (fmul (relevance s) (relevance weights))
                            (fmul (quality s) (quality weights)))
                      (fmul (credibility s) (credibility weights)))
                (fmul (engagement s) (engagement weights)))
          (fmul (freshness s) (freshness weights))"

definition scoreContent :: "int \<Rightarrow> NormalizedContent \<Rightarrow> Category \<Rightarrow> ScoredContent" where
  "scoreContent now content category =
     (let s = \<lparr>relevance = scoreRelevance content category,
                quality = scoreQuality content,
                credibility = scoreCredibility content,
                engagement = scoreEngagement content,
                freshness = scoreFreshness now content\<rparr>;
          weights = CATEGORY_WEIGHTS category;
          finalScore = weightedSum s weights
      in \<lparr>content_id = content_id content, type = type content, source = source content,
          original_url = original_url content, file_path = file_path content,
          title = title content, description = description content,
          extracted_data = extracted_data content, created_at = created_at content,
          scores = s, final_score = fdiv (math_round (fmul finalScore 100)) 100\<rparr>)"

text \<open>
  \<open>scoreContentBatch\<close>: each call of \<open>scoreContent\<close> reads the clock anew;
  \<open>clock i\<close> is the time read while item number \<open>i\<close> is scored.
\<close>

definition scoreContentBatch :: "(nat \<Rightarrow> int) \<Rightarrow> NormalizedContent list \<Rightarrow> Category \<Rightarrow> ScoredContent list" where
  "scoreContentBatch clock contents category =
     array_sort (\<lambda>a b. fsub (final_score b) (final_score a))
       (map (\<lambda>(i, content). scoreContent (clock i) content category) (enumerate 0 contents))"

section \<open>Portfolio documents (src/types/portfolio.ts)\<close>

datatype SectionId = Hook | Credibility | Work | Process | Action

datatype BlockType =
  Media | Expandable_text | Hotspot_media | Scroll_container | Metric | Comparison
  | Cta | Timeline | Gallery | External_link_block

datatype Layout = Full | Contained | Split

datatype SectionInitial = Visible | Section_collapsed

datatype BlockInitial = Collapsed | Expanded

datatype Priority = High | Medium | Low

datatype Padding = Pad_none | Pad_small | Pad_medium | Pad_large

record BlockVisibility =
  initial :: BlockInitial
  priority :: Priority

record BlockStyle =
  padding :: Padding

datatype CtaAction =
  CtaAction (action_label: string) (action_type: string)
            (action_payload: "(string \<times> string) list") (action_style: "string option")

text \<open>
  A block.  The payload of the call-to-action block is spelled out; the payload that
  one of the other builders renders from a content item is kept as the pair of the
  builder's type and the item (\<open>Rendered\<close>), and a scroll container holds its child
  blocks.
\<close>

datatype Block =
  Block (block_id: string) (block_type: BlockType) (block_content: BlockContent)
        (visibility: BlockVisibility) (style: BlockStyle)
and BlockContent =
    CtaContent (primary_action: CtaAction) (secondary_action: "CtaAction option")
               (urgency_text: "string option")
  | Rendered BlockType ScoredContent
  | ScrollContainer "Block list"

record SectionVisibility =
  section_initial :: SectionInitial
  min_content_required :: nat

record Section =
  section_id :: SectionId
  order :: int
  layout :: Layout
  section_visibility :: SectionVisibility
  blocks :: "Block list"

datatype Theme = Light | Dark | Auto

record PortfolioMeta =
  meta_title :: string
  meta_subtitle :: string
  meta_created_at :: string
  meta_updated_at :: string
  language :: string
  theme :: Theme

datatype DeepLinks = DeepLinks bool string string string

datatype StatePreservation = StatePreservation bool bool bool

datatype QuickNavItem = QuickNavItem string SectionId string

datatype QuickNav = QuickNav bool "QuickNavItem list"

record Navigation =
  anchors :: "SectionId \<rightharpoonup> string"
  deep_links :: DeepLinks
  state_preservation :: StatePreservation
  quick_nav :: QuickNav

datatype Analytics = Analytics bool "string list"

record Portfolio =
  portfolio_id :: string
  user_id :: string
  portfolio_category :: Category
  version :: string
  meta :: PortfolioMeta
  sections :: "Section list"
  navigation :: Navigation
  analytics :: Analytics

section \<open>Generated identifiers (src/utils/helpers.ts)\<close>

text \<open>
  \<open>generateId\<close> draws a random identifier.  The supply is explicit: \<open>uuid k\<close> is
  the twelve-character string cut from the \<open>k\<close>-th identifier drawn during a call, and
  every generator returns the number of identifiers drawn so far.
\<close>

definition generateId :: "(nat \<Rightarrow> string) \<Rightarrow> nat \<Rightarrow> string \<Rightarrow> string \<times> nat" where
  "generateId uuid n pre = (if pre \<noteq> [] then pre @ ''_'' @ uuid n else uuid n, Suc n)"

definition generateBlockId :: "(nat \<Rightarrow> string) \<Rightarrow> nat \<Rightarrow> string \<times> nat" where
  "generateBlockId uuid n = generateId uuid n ''b''"

definition generatePortfolioId :: "(nat \<Rightarrow> string) \<Rightarrow> nat \<Rightarrow> string \<times> nat" where
  "generatePortfolioId uuid n = generateId uuid n ''p''"

section \<open>Composition engine (src/services/composition.ts)\<close>

text \<open>
  Reading a property of \<open>undefined\<close> raises a \<open>TypeError\<close>; it is the only
  exception the composition code can raise.
\<close>

datatype error = TypeError

record SectionConfig =
  id :: SectionId
  config_order :: int
  required :: bool
  minBlocks :: nat
  maxBlocks :: nat
  preferredTypes :: "BlockType list"
  contentFilter :: "ScoredContent \<Rightarrow> Category \<Rightarrow> bool"

definition socialSources :: "ContentSource list" where
  "socialSources = [Github, Linkedin, Instagram, Twitter, Tiktok]"

definition hookFilter :: "ScoredContent \<Rightarrow> Category \<Rightarrow> bool" where
  "hookFilter content category =
     (if type content = Video then True
      else if source content = Youtube then True
      else if type content = Text
              \<and> (xd content text_type = Some Intro \<or> xd content text_type = Some Bio) then True
      else final_score content > fl (6/10))"

definition credibilityFilter :: "ScoredContent \<Rightarrow> Category \<Rightarrow> bool" where
  "credibilityFilter content category =
     (if type content = Pdf then True
      else if type content = External_link then source content \<in> set socialSources
      else if source content = Github then True
      else credibility (scores content) > fl (5/10))"

definition workFilter :: "ScoredContent \<Rightarrow> Category \<Rightarrow> bool" where
  "workFilter content category =
     (if type content = Image then True
      else if type content = Video then True
      else if type content = Code then True
      else if type content = External_link then \<not> (source content \<in> set socialSources)
      else if type content = Text then False
      else if type content = Pdf then False
      else quality (scores content) > fl (4/10))"

definition processFilter :: "ScoredContent \<Rightarrow> Category \<Rightarrow> bool" where
  "processFilter content category =
     (if type content = Text
         \<and> (xd content text_type = Some About \<or> xd content text_type = Some Description
            \<or> xd content text_type = Some General) then True
      else if type content = Pdf \<and> \<not> truthy_bool (xd content is_resume) then True
      else False)"

definition actionFilter :: "ScoredContent \<Rightarrow> Category \<Rightarrow> bool" where
  "actionFilter content category = False"

definition SECTION_CONFIGS :: "SectionConfig list" where
  "SECTION_CONFIGS =
     [\<lparr>id = Hook, config_order = 1, required = True, minBlocks = 1, maxBlocks = 2,
       preferredTypes = [Metric, Media, Expandable_text], contentFilter = hookFilter\<rparr>,
      \<lparr>id = Credibility, config_order = 2, required = True, minBlocks = 1, maxBlocks = 3,
       preferredTypes = [Expandable_text, External_link_block, Metric],
       contentFilter = credibilityFilter\<rparr>,
      \<lparr>id = Work, config_order = 3, required = True, minBlocks = 1, maxBlocks = 6,
       preferredTypes = [Gallery, Scroll_container, Media, Comparison, External_link_block],
       contentFilter = workFilter\<rparr>,
      \<lparr>id = Process, config_order = 4, required = False, minBlocks = 0, maxBlocks = 2,
       preferredTypes = [Timeline, Expandable_text, Hotspot_media],
       contentFilter = processFilter\<rparr>,
      \<lparr>id = Action, config_order = 5, required = True, minBlocks = 1, maxBlocks = 1,
       preferredTypes = [Cta], contentFilter = actionFilter\<rparr>]"

fun CATEGORY_HOOK_TYPES :: "Category \<Rightarrow> BlockType" where
  "CATEGORY_HOOK_TYPES Finance = Metric"
| "CATEGORY_HOOK_TYPES Entertainment = Media"
| "CATEGORY_HOOK_TYPES Design = Comparison"
| "CATEGORY_HOOK_TYPES Legal = Expandable_text"
| "CATEGORY_HOOK_TYPES Tech = Media"
| "CATEGORY_HOOK_TYPES Marketing = Metric"
| "CATEGORY_HOOK_TYPES Influencers = Media"
| "CATEGORY_HOOK_TYPES Business = Metric"

text \<open>A loop whose body may raise: the first error ends it.\<close>

fun foldE :: "('a \<Rightarrow> 's \<Rightarrow> error + 's) \<Rightarrow> 'a list \<Rightarrow> 's \<Rightarrow> error + 's" where
  "foldE f [] st = Inr st"
| "foldE f (x # xs) st = (case f x st of Inl e \<Rightarrow> Inl e | Inr st' \<Rightarrow> foldE f xs st')"

subsection \<open>assignContentToSections\<close>

text \<open>
  The local state of the assigner: the \<open>Map\<close> from section id to the array of
  assigned items, and the \<open>Set\<close> of used content ids.
\<close>

type_synonym Assignments = "SectionId \<rightharpoonup> ScoredContent list"

type_synonym AssignState = "Assignments \<times> string set"

definition initAssignments :: Assignments where
  "initAssignments = fold (\<lambda>config m. m(id config \<mapsto> [])) SECTION_CONFIGS Map.empty"

text \<open>
  \<open>assignments.get(sid)!.push(content); usedContent.add(content.content_id)\<close>:
  \<open>push\<close> on a missing entry raises.
\<close>

definition pushContent :: "SectionId \<Rightarrow> ScoredContent \<Rightarrow> AssignState \<Rightarrow> error + AssignState" where
  "pushContent sid content st =
     (case fst st sid of
        None \<Rightarrow> Inl TypeError
      | Some assigned \<Rightarrow>
          Inr ((fst st)(sid \<mapsto> assigned @ [content]), insert (content_id content) (snd st)))"

definition firstPass :: "ScoredContent list \<Rightarrow> Category \<Rightarrow> SectionConfig \<Rightarrow> AssignState \<Rightarrow> error + AssignState" where
  "firstPass scoredContent category config st =
     (if id config = Action then Inr st
      else
        let candidates =
              take (maxBlocks config)
                (filter (\<lambda>c. contentFilter config c category)
                   (filter (\<lambda>c. content_id c \<notin> snd st) scoredContent))
        in foldE (pushContent (id config)) candidates st)"

definition secondPass :: "ScoredContent list \<Rightarrow> SectionConfig \<Rightarrow> AssignState \<Rightarrow> error + AssignState" where
  "secondPass scoredContent config st =
     (if \<not> required config then Inr st
      else if id config = Action then Inr st
      else
        case fst st (id config) of
          None \<Rightarrow> Inl TypeError
        | Some assigned \<Rightarrow>
            if length assigned < minBlocks config then
              let remaining =
                    take (minBlocks config - length assigned)
                      (filter (\<lambda>c. content_id c \<notin> snd st) scoredContent)
              in foldE (pushContent (id config)) remaining st
            else Inr st)"

definition assignContentToSections :: "ScoredContent list \<Rightarrow> Category \<Rightarrow> error + Assignments" where
  "assignContentToSections scoredContent category =
     (case foldE (firstPass scoredContent category) SECTION_CONFIGS (initAssignments, {}) of
        Inl e \<Rightarrow> Inl e
      | Inr st1 \<Rightarrow>
          (case foldE (secondPass scoredContent) SECTION_CONFIGS st1 of
             Inl e \<Rightarrow> Inl e
           | Inr st2 \<Rightarrow> Inr (fst st2)))"

subsection \<open>selectBlockType\<close>

definition findConfig :: "SectionId \<Rightarrow> SectionConfig option" where
  "findConfig sectionId = find (\<lambda>c. id c = sectionId) SECTION_CONFIGS"

fun typeMapping :: "ContentType \<Rightarrow> BlockType option" where
  "typeMapping Video = Some Media"
| "typeMapping Image = Some Media"
| "typeMapping Pdf = Some Expandable_text"
| "typeMapping Text = Some Expandable_text"
| "typeMapping Code = Some Expandable_text"
| "typeMapping External_link = Some External_link_block"

text \<open>\<open>xs[0]\<close>: \<open>undefined\<close> (here \<open>None\<close>) on an empty array.\<close>

definition first_elem :: "'a list \<Rightarrow> 'a option" where
  "first_elem xs = (case xs of [] \<Rightarrow> None | x # _ \<Rightarrow> Some x)"

text \<open>
  The result is \<open>Inl TypeError\<close> where the code dereferences a missing section
  configuration, and \<open>Inr None\<close> where it returns \<open>undefined\<close>.
\<close>

definition selectBlockType :: "ScoredContent \<Rightarrow> SectionId \<Rightarrow> Category \<Rightarrow> error + BlockType option" where
  "selectBlockType content sectionId category =
     (let sectionConfig = findConfig sectionId in
      if type content = Pdf then Inr (Some Expandable_text)
      else if type content = Text then Inr (Some Expandable_text)
      else if type content = External_link then Inr (Some External_link_block)
      else if source content = Github \<and> truthy_bool (xd content is_profile)
        then Inr (Some External_link_block)
      else if sectionId = Hook then Inr (Some (CATEGORY_HOOK_TYPES category))
      else
        case sectionConfig of
          None \<Rightarrow> Inl TypeError
        | Some cfg \<Rightarrow>
            (case typeMapping (type content) of
               None \<Rightarrow> Inr (first_elem (preferredTypes cfg))
             | Some mappedType \<Rightarrow>
                 if mappedType \<in> set (preferredTypes cfg) then Inr (Some mappedType)
                 else Inr (first_elem (preferredTypes cfg))))"

subsection \<open>buildBlock (src/services/block-builder.ts)\<close>

record BaseBlock =
  base_block_id :: string
  base_visibility :: BlockVisibility
  base_style :: BlockStyle

text \<open>The builders that render a payload from the content item.\<close>

definition renderBlock :: "BlockType \<Rightarrow> ScoredContent \<Rightarrow> BaseBlock \<Rightarrow> Block" where
  "renderBlock t content base =
     Block (base_block_id base) t (Rendered t content) (base_visibility base) (base_style base)"

definition buildScrollContainerBlock :: "(nat \<Rightarrow> string) \<Rightarrow> nat \<Rightarrow> ScoredContent \<Rightarrow> BaseBlock \<Rightarrow> Block \<times> nat" where
  "buildScrollContainerBlock uuid n content base =
     (let (childId, n1) = generateBlockId uuid n;
          childBlock = renderBlock Media content (base\<lparr>base_block_id := childId\<rparr>)
      in (Block (base_block_id base) Scroll_container (ScrollContainer [childBlock])
                (base_visibility base) (base_style base), n1))"

definition buildCTABlock :: "ScoredContent \<Rightarrow> BaseBlock \<Rightarrow> Block" where
  "buildCTABlock content base =
     Block (base_block_id base) Cta
       (CtaContent (CtaAction ''Contact'' ''open_chat'' [] (Some ''filled'')) None None)
       (base_visibility base) (base_style base)"

text \<open>
  \<open>buildBlock\<close>: the \<open>switch\<close> over the block type; \<open>None\<close> (an undefined type)
  reaches the \<open>default\<close> branch, which builds a media block.
\<close>

definition buildBlock :: "(nat \<Rightarrow> string) \<Rightarrow> nat \<Rightarrow> ScoredContent \<Rightarrow> BlockType option \<Rightarrow> SectionId \<Rightarrow> Block \<times> nat" where
  "buildBlock uuid n content blockType sectionId =
     (let (bid, n1) = generateBlockId uuid n;
          baseBlock =
            \<lparr>base_block_id = bid,
             base_visibility =
               \<lparr>initial = (if sectionId = Hook then Expanded else Collapsed),
                priority = (if final_score content > fl (7/10) then High else Medium)\<rparr>,
             base_style = \<lparr>padding = Pad_medium\<rparr>\<rparr>
      in case blockType of
           Some Media \<Rightarrow> (renderBlock Media content baseBlock, n1)
         | Some Expandable_text \<Rightarrow> (renderBlock Expandable_text content baseBlock, n1)
         | Some Metric \<Rightarrow> (renderBlock Metric content baseBlock, n1)
         | Some Comparison \<Rightarrow> (renderBlock Comparison content baseBlock, n1)
         | Some Gallery \<Rightarrow> (renderBlock Gallery content baseBlock, n1)
         | Some Timeline \<Rightarrow> (renderBlock Timeline content baseBlock, n1)
         | Some External_link_block \<Rightarrow> (renderBlock External_link_block content baseBlock, n1)
         | Some Scroll_container \<Rightarrow> buildScrollContainerBlock uuid n1 content baseBlock
         | Some Hotspot_media \<Rightarrow> (renderBlock Hotspot_media content baseBlock, n1)
         | Some Cta \<Rightarrow> (buildCTABlock content baseBlock, n1)
         | None \<Rightarrow> (renderBlock Media content baseBlock, n1))"

subsection \<open>buildSection, buildCTASection\<close>

text \<open>\<open>contents.map(content => buildBlock(content, selectBlockType(...), sectionId))\<close>.\<close>

fun buildBlocks :: "(nat \<Rightarrow> string) \<Rightarrow> nat \<Rightarrow> SectionId \<Rightarrow> Category \<Rightarrow> ScoredContent list \<Rightarrow> error + (Block list \<times> nat)" where
  "buildBlocks uuid n sectionId category [] = Inr ([], n)"
| "buildBlocks uuid n sectionId category (content # rest) =
     (case selectBlockType content sectionId category of
        Inl e \<Rightarrow> Inl e
      | Inr blockType \<Rightarrow>
          (case buildBlock uuid n content blockType sectionId of
             (b, n1) \<Rightarrow>
               (case buildBlocks uuid n1 sectionId category rest of
                  Inl e \<Rightarrow> Inl e
                | Inr (bs, n2) \<Rightarrow> Inr (b # bs, n2))))"

definition buildSection :: "(nat \<Rightarrow> string) \<Rightarrow> nat \<Rightarrow> SectionId \<Rightarrow> ScoredContent list \<Rightarrow> Category \<Rightarrow> error + (Section \<times> nat)" where
  "buildSection uuid n sectionId contents category =
     (let config = findConfig sectionId in
      case buildBlocks uuid n sectionId category contents of
        Inl e \<Rightarrow> Inl e
      | Inr (bs, n1) \<Rightarrow>
          (case config of
             None \<Rightarrow> Inl TypeError
           | Some cfg \<Rightarrow>
               Inr (\<lparr>section_id = sectionId,
                     order = config_order cfg,
                     layout = (if sectionId = Hook then Full else Contained),
                     section_visibility =
                       \<lparr>section_initial = Visible, min_content_required = minBlocks cfg\<rparr>,
                     blocks = bs\<rparr>, n1)))"

definition buildCTASection :: "(nat \<Rightarrow> string) \<Rightarrow> nat \<Rightarrow> string \<Rightarrow> string \<Rightarrow> Section \<times> nat" where
  "buildCTASection uuid n userId ttl =
     (let (bid, n1) = generateBlockId uuid n;
          ctaBlock =
            Block bid Cta
              (CtaContent
                 (CtaAction ''Get in Touch'' ''open_chat'' [(''user_id'', userId)] (Some ''filled''))
                 (Some (CtaAction ''Save Card'' ''save_card'' [] None))
                 None)
              \<lparr>initial = Expanded, priority = High\<rparr>
              \<lparr>padding = Pad_large\<rparr>
      in (\<lparr>section_id = Action,
           order = 5,
           layout = Contained,
           section_visibility = \<lparr>section_initial = Visible, min_content_required = 1\<rparr>,
           blocks = [ctaBlock]\<rparr>, n1))"

subsection \<open>buildNavigation, buildAnalytics\<close>

fun sectionIdString :: "SectionId \<Rightarrow> string" where
  "sectionIdString Hook = ''hook''"
| "sectionIdString Credibility = ''credibility''"
| "sectionIdString Work = ''work''"
| "sectionIdString Process = ''process''"
| "sectionIdString Action = ''action''"

fun sectionLabels :: "SectionId \<Rightarrow> string \<times> string" where
  "sectionLabels Hook = (''Overview'', ''star.fill'')"
| "sectionLabels Credibility = (''About'', ''person.fill'')"
| "sectionLabels Work = (''Work'', ''briefcase.fill'')"
| "sectionLabels Process = (''Process'', ''gearshape.fill'')"
| "sectionLabels Action = (''Contact'', ''message.fill'')"

definition buildNavigation :: "string \<Rightarrow> Section list \<Rightarrow> Navigation" where
  "buildNavigation portfolioId secs =
     \<lparr>anchors =
        fold (\<lambda>sec m. m(section_id sec \<mapsto> ''section_'' @ sectionIdString (section_id sec)))
             secs Map.empty,
      deep_links =
        DeepLinks True
          (''reshuffle://portfolio/'' @ portfolioId)
          (''reshuffle://portfolio/'' @ portfolioId @ ''/{section_id}'')
          (''reshuffle://portfolio/'' @ portfolioId @ ''/block/{block_id}''),
      state_preservation = StatePreservation True True True,
      quick_nav =
        QuickNav True
          (map (\<lambda>sec. QuickNavItem (fst (sectionLabels (section_id sec))) (section_id sec)
                                      (snd (sectionLabels (section_id sec)))) secs)\<rparr>"

definition buildAnalytics :: Analytics where
  "buildAnalytics =
     Analytics True
       [''portfolio_view'', ''section_view'', ''block_interaction'', ''cta_click'',
        ''external_link_click'', ''share'']"

subsection \<open>composePortfolio\<close>

record ComposeOptions =
  opt_userId :: string
  opt_category :: Category
  opt_title :: string
  opt_subtitle :: string

text \<open>
  One round of the loop over \<open>SECTION_CONFIGS\<close> that collects the sections; the
  state is the array built so far and the number of identifiers drawn.
\<close>

definition composeStep :: "(nat \<Rightarrow> string) \<Rightarrow> Assignments \<Rightarrow> Category \<Rightarrow> string \<Rightarrow> string \<Rightarrow> SectionConfig \<Rightarrow> Section list \<times> nat \<Rightarrow> error + (Section list \<times> nat)" where
  "composeStep uuid assignments category userId ttl config st =
     (if id config = Action then
        (case buildCTASection uuid (snd st) userId ttl of
           (sec, n1) \<Rightarrow> Inr (fst st @ [sec], n1))
      else
        case assignments (id config) of
          None \<Rightarrow> Inl TypeError
        | Some sectionContent \<Rightarrow>
            if \<not> required config \<and> length sectionContent = 0 then Inr st
            else if length sectionContent > 0 \<or> required config then
              (case buildSection uuid (snd st) (id config) sectionContent category of
                 Inl e \<Rightarrow> Inl e
               | Inr (sec, n1) \<Rightarrow> Inr (fst st @ [sec], n1))
            else Inr st)"

text \<open>
  \<open>composePortfolio\<close>.  \<open>isoNow k\<close> is the string that the \<open>k\<close>-th call of
  \<open>now()\<close> returns.
\<close>

definition composePortfolio :: "(nat \<Rightarrow> string) \<Rightarrow> (nat \<Rightarrow> string) \<Rightarrow> ScoredContent list \<Rightarrow> ComposeOptions \<Rightarrow> error + Portfolio" where
  "composePortfolio uuid isoNow scoredContent options =
     (case generatePortfolioId uuid 0 of
        (portfolioId, n0) \<Rightarrow>
          (case assignContentToSections scoredContent (opt_category options) of
             Inl e \<Rightarrow> Inl e
           | Inr assignments \<Rightarrow>
               (case foldE (composeStep uuid assignments (opt_category options)
                              (opt_userId options) (opt_title options))
                           SECTION_CONFIGS ([], n0) of
                  Inl e \<Rightarrow> Inl e
                | Inr (secs, n1) \<Rightarrow>
                    (let sorted_secs = array_sort (\<lambda>a b. order a - order b) secs
                     in Inr \<lparr>portfolio_id = portfolioId,
                             user_id = opt_userId options,
                             portfolio_category = opt_category options,
                             version = ''v1'',
                             meta = \<lparr>meta_title = opt_title options,
                                     meta_subtitle = opt_subtitle options,
                                     meta_created_at = isoNow 0,
                                     meta_updated_at = isoNow 1,
                                     language = ''en'',
                                     theme = Auto\<rparr>,
                             sections = sorted_secs,
                             navigation = buildNavigation portfolioId sorted_secs,
                             analytics = buildAnalytics\<rparr>))))"

section \<open>Concrete inputs\<close>

text \<open>A GitHub repository with 150 stars, as the GitHub handler produces it (type \<open>code\<close>).\<close>

definition no_extracted_data :: ExtractedData where
  "no_extracted_data =
     \<lparr>thumbnail_url = None, view_count = None, like_count = None, duration_seconds = None,
      stars = None, readme_preview = None, is_profile = None, width = None, height = None,
      page_count = None, extracted_text = None, is_resume = None, text_type = None\<rparr>"

definition github_repo_150 :: NormalizedContent where
  "github_repo_150 =
     \<lparr>content_id = ''c_1'', type = Code, source = Github,
      original_url = Some ''https://github.com/o/r'', file_path = None,
      title = ''r'', description = ''a repository'',
      extracted_data = Some (no_extracted_data\<lparr>stars := Some 150\<rparr>),
      created_at = Some 0\<rparr>"

section \<open>Auxiliary notions for the proofs\<close>

text \<open>The content ids of a list of items.\<close>

definition ids :: "ScoredContent list \<Rightarrow> string set" where
  "ids l = content_id ` set l"

text \<open>
  The invariant of the assigner's state: every section has an array, the ids in it are
  marked as used, and the arrays of two different sections share no id.
\<close>

definition assign_inv :: "AssignState \<Rightarrow> bool" where
  "assign_inv st \<longleftrightarrow>
     (\<forall>s. \<exists>l. fst st s = Some l \<and> ids l \<subseteq> snd st) \<and>
     (\<forall>s1 s2 l1 l2. s1 \<noteq> s2 \<longrightarrow> fst st s1 = Some l1 \<longrightarrow> fst st s2 = Some l2 \<longrightarrow>
        ids l1 \<inter> ids l2 = {})"

text \<open>No array holds the same content id twice.\<close>

definition distinct_inv :: "AssignState \<Rightarrow> bool" where
  "distinct_inv st \<longleftrightarrow> (\<forall>s l. fst st s = Some l \<longrightarrow> distinct (map content_id l))"

text \<open>The \<open>order\<close> that \<open>SECTION_CONFIGS\<close> gives each section.\<close>

fun order_of :: "SectionId \<Rightarrow> int" where
  "order_of Hook = 1" | "order_of Credibility = 2" | "order_of Work = 3"
| "order_of Process = 4" | "order_of Action = 5"

text \<open>Sub-scores that are all 1: the largest weighted sum of a category.\<close>

definition all_ones :: ContentScores where
  "all_ones = \<lparr>relevance = 1, quality = 1, credibility = 1, engagement = 1, freshness = 1\<rparr>"

text \<open>An uploaded video and an uploaded pdf, scored for category Tech at clock reading 0.\<close>

definition video_upload :: NormalizedContent where
  "video_upload =
     \<lparr>content_id = ''c_video'', type = Video, source = Upload,
      original_url = None, file_path = Some ''/uploads/reel.mp4'',
      title = ''Demo reel'', description = ''a video'',
      extracted_data = None, created_at = Some 0\<rparr>"

definition pdf_upload :: NormalizedContent where
  "pdf_upload =
     \<lparr>content_id = ''c_pdf'', type = Pdf, source = Upload,
      original_url = None, file_path = Some ''/uploads/cv.pdf'',
      title = ''Certificate'', description = ''a pdf'',
      extracted_data = None, created_at = Some 0\<rparr>"

definition two_scored_items :: "ScoredContent list" where
  "two_scored_items = [scoreContent 0 video_upload Tech, scoreContent 0 pdf_upload Tech]"

section \<open>Properties of the double arithmetic\<close>

lemma rne_of_int: "rne (of_int k) = k"
  by (simp add: rne_def)

lemma rne_cases:
  "rne q = \<lfloor>q\<rfloor> \<or> rne q = \<lfloor>q\<rfloor> + 1"
  by (simp add: rne_def Let_def)

lemma rne_ge_floor: "\<lfloor>q\<rfloor> \<le> rne q"
  using rne_cases [of q] by auto

lemma rne_le_floor_Suc: "rne q \<le> \<lfloor>q\<rfloor> + 1"
  using rne_cases [of q] by auto

lemma rne_mono:
  assumes "q \<le> r"
  shows "rne q \<le> rne r"
proof (cases "\<lfloor>q\<rfloor> = \<lfloor>r\<rfloor>")
  case True
  have "q - of_int \<lfloor>q\<rfloor> \<le> r - of_int \<lfloor>r\<rfloor>"
    using assms True by simp
  then show ?thesis
    using True by (auto simp: rne_def Let_def)
next
  case False
  have "\<lfloor>q\<rfloor> \<le> \<lfloor>r\<rfloor>" using assms by (rule floor_mono)
  with False have "\<lfloor>q\<rfloor> + 1 \<le> \<lfloor>r\<rfloor>" by simp
  then show ?thesis
    using rne_le_floor_Suc [of q] rne_ge_floor [of r] by linarith
qed

lemma rne_ge_int: "of_int k \<le> q \<Longrightarrow> k \<le> rne q"
  using rne_mono [of "of_int k" q] by (simp add: rne_of_int)

lemma rne_le_int: "q \<le> of_int k \<Longrightarrow> rne q \<le> k"
  using rne_mono [of q "of_int k"] by (simp add: rne_of_int)

lemma expo_bounds:
  assumes "0 < x"
  shows "2 powi (expo x) \<le> x \<and> x < 2 powi (expo x + 1)"
proof -
  obtain p q where pq: "quotient_of x = (p, q)" by (cases "quotient_of x")
  have q: "0 < q" using pq by (rule quotient_of_denom_pos)
  have x: "x = of_int p / of_int q" using pq by (rule quotient_of_div)
  have p: "0 < p" using assms q x by (simp add: zero_less_divide_iff)
  let ?bp = "bitlen p" and ?bq = "bitlen q"
  have bp: "2 ^ nat (?bp - 1) \<le> p" "p < 2 ^ nat ?bp" using bitlen_bounds [OF p] by auto
  have bq: "2 ^ nat (?bq - 1) \<le> q" "q < 2 ^ nat ?bq" using bitlen_bounds [OF q] by auto
  have bp1: "1 \<le> ?bp" using p by (simp add: bitlen_alt_def)
  have bq1: "1 \<le> ?bq" using q by (simp add: bitlen_alt_def)
  have rp: "(2::rat) powi (?bp - 1) \<le> of_int p" "(of_int p :: rat) < 2 powi ?bp"
  proof -
    have "(of_int (2 ^ nat (?bp - 1)) :: rat) \<le> of_int p" using bp(1) by (simp only: of_int_le_iff)
    then show "(2::rat) powi (?bp - 1) \<le> of_int p" using bp1 by (simp add: power_int_def)
    have "(of_int p :: rat) < of_int (2 ^ nat ?bp)" using bp(2) by (simp only: of_int_less_iff)
    then show "(of_int p :: rat) < 2 powi ?bp" using bp1 by (simp add: power_int_def)
  qed
  have rq: "(2::rat) powi (?bq - 1) \<le> of_int q" "(of_int q :: rat) < 2 powi ?bq"
  proof -
    have "(of_int (2 ^ nat (?bq - 1)) :: rat) \<le> of_int q" using bq(1) by (simp only: of_int_le_iff)
    then show "(2::rat) powi (?bq - 1) \<le> of_int q" using bq1 by (simp add: power_int_def)
    have "(of_int q :: rat) < of_int (2 ^ nat ?bq)" using bq(2) by (simp only: of_int_less_iff)
    then show "(of_int q :: rat) < 2 powi ?bq" using bq1 by (simp add: power_int_def)
  qed
  let ?d = "?bp - ?bq"
  have qpos: "(0::rat) < of_int q" using q by simp
  have ppos: "(0::rat) < of_int p" using p by simp
  have pw: "\<And>k. (0::rat) < 2 powi k" by simp
  \<comment> \<open>upper bound\<close>
  have up: "x < (2::rat) powi (?d + 1)"
  proof -
    have "x * of_int q = of_int p" using x qpos by simp
    also have "\<dots> < (2::rat) powi ?bp" by (rule rp(2))
    also have "\<dots> = 2 powi (?d + 1) * 2 powi (?bq - 1)"
      by (simp add: power_int_add [symmetric])
    also have "\<dots> \<le> 2 powi (?d + 1) * of_int q"
      using rq(1) pw [of "?d + 1"] by (simp add: mult_left_mono)
    finally show ?thesis using qpos by simp
  qed
  have lo: "(2::rat) powi (?d - 1) \<le> x"
  proof -
    have "(2::rat) powi (?d - 1) * of_int q \<le> 2 powi (?d - 1) * 2 powi ?bq"
      using rq(2) pw [of "?d - 1"] by (simp add: mult_left_mono)
    also have "\<dots> = 2 powi (?bp - 1)"
      by (simp add: power_int_add [symmetric])
    also have "\<dots> \<le> of_int p" by (rule rp(1))
    also have "\<dots> = x * of_int q" using x qpos by simp
    finally show ?thesis using qpos by simp
  qed
  show ?thesis
  proof (cases "2 powi ?d \<le> x")
    case True
    then have "expo x = ?d" by (simp add: expo_def pq Let_def)
    with True up show ?thesis by simp
  next
    case False
    then have "expo x = ?d - 1" by (simp add: expo_def pq Let_def)
    with False lo show ?thesis by simp
  qed
qed

lemma ulp_pos: "0 < ulp x"
  by (simp add: ulp_def)

lemma powi2_less_imp_less:
  assumes "(2::rat) powi a < 2 powi b"
  shows "a < b"
proof (rule ccontr)
  assume "\<not> a < b"
  then have "b \<le> a" by simp
  then have "(2::rat) powi b \<le> 2 powi a" by (intro power_int_increasing) simp_all
  with assms show False by simp
qed

lemma expo_mono:
  assumes "0 < x" and "x \<le> y"
  shows "expo x \<le> expo y"
proof -
  have "(2::rat) powi (expo x) \<le> x" using expo_bounds [OF assms(1)] by simp
  also have "x \<le> y" by fact
  also have "y < 2 powi (expo y + 1)" using expo_bounds [of y] assms by simp
  finally have "(2::rat) powi (expo x) < 2 powi (expo y + 1)" .
  then have "expo x < expo y + 1" by (rule powi2_less_imp_less)
  then show ?thesis by simp
qed

lemma fl_pos_bounds:
  assumes "0 < x"
  shows "2 powi (expo x) \<le> fl_pos x \<and> fl_pos x \<le> 2 powi (expo x + 1)"
proof -
  let ?e = "expo x"
  have b: "(2::rat) powi ?e \<le> x" "x < 2 powi (?e + 1)" using expo_bounds [OF assms] by simp_all
  have u: "ulp x = 2 powi (?e - 52)" by (simp add: ulp_def)
  have e0: "(2::rat) powi ?e = 2 ^ 52 * ulp x"
  proof -
    have "(2::rat) powi ?e = 2 powi (52 + (?e - 52))" by simp
    also have "\<dots> = 2 powi 52 * 2 powi (?e - 52)" by (rule power_int_add) simp
    finally show ?thesis by (simp add: u)
  qed
  have e1: "(2::rat) powi (?e + 1) = 2 ^ 53 * ulp x"
  proof -
    have "?e + 1 = 53 + (?e - 52)" by simp
    then have "(2::rat) powi (?e + 1) = 2 powi (53 + (?e - 52))" by (simp only:)
    also have "\<dots> = 2 powi 53 * 2 powi (?e - 52)" by (rule power_int_add) simp
    finally show ?thesis by (simp add: u)
  qed
  have "(2::rat) ^ 52 \<le> x / ulp x"
    using b(1) ulp_pos [of x] unfolding e0 by (simp add: pos_le_divide_eq)
  then have "of_int (2 ^ 52) \<le> x / ulp x" by simp
  then have lo: "2 ^ 52 \<le> rne (x / ulp x)" by (rule rne_ge_int)
  have "x / ulp x \<le> (2::rat) ^ 53"
    using b(2) ulp_pos [of x] unfolding e1 by (simp add: pos_divide_le_eq)
  then have "x / ulp x \<le> of_int (2 ^ 53)" by simp
  then have hi: "rne (x / ulp x) \<le> 2 ^ 53" by (rule rne_le_int)
  have "(2::rat) ^ 52 * ulp x \<le> of_int (rne (x / ulp x)) * ulp x"
  proof (rule mult_right_mono)
    have "(of_int (2 ^ 52) :: rat) \<le> of_int (rne (x / ulp x))" using lo by (simp only: of_int_le_iff)
    then show "(2::rat) ^ 52 \<le> of_int (rne (x / ulp x))" by simp
    show "0 \<le> ulp x" using ulp_pos [of x] by simp
  qed
  moreover have "of_int (rne (x / ulp x)) * ulp x \<le> (2::rat) ^ 53 * ulp x"
  proof (rule mult_right_mono)
    have "(of_int (rne (x / ulp x)) :: rat) \<le> of_int (2 ^ 53)" using hi by (simp only: of_int_le_iff)
    then show "of_int (rne (x / ulp x)) \<le> (2::rat) ^ 53" by simp
    show "0 \<le> ulp x" using ulp_pos [of x] by simp
  qed
  ultimately show ?thesis
    unfolding fl_pos_def e0 e1 by simp
qed

lemma fl_pos_pos: "0 < x \<Longrightarrow> 0 < fl_pos x"
proof -
  assume "0 < x"
  then have "(2::rat) powi (expo x) \<le> fl_pos x" using fl_pos_bounds by simp
  moreover have "(0::rat) < 2 powi (expo x)" by simp
  ultimately show ?thesis by (rule less_le_trans [rotated])
qed

lemma fl_pos_mono:
  assumes "0 < x" and "x \<le> y"
  shows "fl_pos x \<le> fl_pos y"
proof (cases "expo x = expo y")
  case True
  then have u: "ulp x = ulp y" by (simp add: ulp_def)
  have "x / ulp y \<le> y / ulp y"
    using assms(2) ulp_pos [of y] by (simp add: divide_right_mono)
  then have "rne (x / ulp y) \<le> rne (y / ulp y)" by (rule rne_mono)
  then have "(of_int (rne (x / ulp y)) :: rat) \<le> of_int (rne (y / ulp y))"
    by (simp only: of_int_le_iff)
  then show ?thesis
    unfolding fl_pos_def u using ulp_pos [of y] by (simp add: mult_right_mono)
next
  case False
  have y: "0 < y" using assms by simp
  have "expo x \<le> expo y" using assms by (rule expo_mono)
  with False have "expo x + 1 \<le> expo y" by simp
  then have "(2::rat) powi (expo x + 1) \<le> 2 powi (expo y)"
    by (intro power_int_increasing) simp_all
  moreover have "fl_pos x \<le> 2 powi (expo x + 1)" using fl_pos_bounds [OF assms(1)] by simp
  moreover have "2 powi (expo y) \<le> fl_pos y" using fl_pos_bounds [OF y] by simp
  ultimately show ?thesis by linarith
qed

lemma fl_0: "fl 0 = 0"
  by (simp add: fl_def)

lemma fl_pos_iff: "0 < fl x \<longleftrightarrow> 0 < x"
  using fl_pos_pos [of x] fl_pos_pos [of "- x"] by (auto simp: fl_def)

lemma fl_nonneg_iff: "0 \<le> fl x \<longleftrightarrow> 0 \<le> x"
  using fl_pos_pos [of x] fl_pos_pos [of "- x"] by (auto simp: fl_def not_less [symmetric])

lemma fl_nonpos_iff: "fl x \<le> 0 \<longleftrightarrow> x \<le> 0"
  using fl_pos_iff [of x] by (simp add: not_less [symmetric])

lemma fl_mono:
  assumes "x \<le> y"
  shows "fl x \<le> fl y"
proof -
  consider "0 < x" | "x \<le> 0" "0 \<le> y" | "y < 0" by linarith
  then show ?thesis
  proof cases
    case 1
    then have "0 < y" using assms by simp
    with 1 assms show ?thesis by (simp add: fl_def fl_pos_mono)
  next
    case 2
    then have "fl x \<le> 0" "0 \<le> fl y" by (simp_all add: fl_nonpos_iff fl_nonneg_iff)
    then show ?thesis by simp
  next
    case 3
    then have x: "x < 0" using assms by simp
    have "fl_pos (- y) \<le> fl_pos (- x)" using 3 assms by (intro fl_pos_mono) simp_all
    with 3 x show ?thesis by (simp add: fl_def)
  qed
qed

lemma fl_unit_interval: "0 \<le> x \<Longrightarrow> x \<le> 1 \<Longrightarrow> 0 \<le> fl x \<and> fl x \<le> 1"
proof -
  assume "0 \<le> x" and "x \<le> 1"
  then have "0 \<le> fl x" and "fl x \<le> fl 1"
    by (simp_all add: fl_nonneg_iff fl_mono)
  moreover have "fl 1 = 1" by code_simp
  ultimately show ?thesis by simp
qed

lemma fsub_le_0_iff: "fsub a b \<le> 0 \<longleftrightarrow> a \<le> b"
  by (simp add: fsub_def fl_nonpos_iff)

lemma fadd_mono: "a \<le> a' \<Longrightarrow> b \<le> b' \<Longrightarrow> fadd a b \<le> fadd a' b'"
  unfolding fadd_def by (intro fl_mono add_mono)

lemma fadd_nonneg: "0 \<le> a \<Longrightarrow> 0 \<le> b \<Longrightarrow> 0 \<le> fadd a b"
  by (simp add: fadd_def fl_nonneg_iff)

lemma fmul_nonneg: "0 \<le> a \<Longrightarrow> 0 \<le> b \<Longrightarrow> 0 \<le> fmul a b"
  by (simp add: fmul_def fl_nonneg_iff)

lemma fmul_le_one_left: "a \<le> 1 \<Longrightarrow> 0 \<le> b \<Longrightarrow> fmul a b \<le> fmul 1 b"
  unfolding fmul_def by (intro fl_mono mult_right_mono)

section \<open>Properties of the scoring engine\<close>

subsection \<open>Credibility of a GitHub item with 150 stars\<close>

lemma bump_True: "bump True d score = fadd score d"
  and bump_False: "bump False d score = score"
  by (simp_all add: bump_def)

lemma scoreContent_credibility:
  "credibility (scores (scoreContent now content category)) = scoreCredibility content"
  by (simp add: scoreContent_def Let_def)

lemma github_repo_150_fields:
  "source github_repo_150 = Github" "type github_repo_150 = Code"
  "xd github_repo_150 stars = Some 150"
  by (simp_all add: github_repo_150_def no_extracted_data_def xd_def)

text \<open>The sums of the credibility bonuses, in doubles: the doubles 0.7, 0.85 and 0.6.\<close>

lemma credibility_sums:
  "max 0 (min (fadd (fadd (fadd (fl (3/10)) (fl (2/10))) (fl (1/10))) (fl (1/10))) 1) = fl (7/10)"
  "max 0 (min (fadd (fadd (fadd (fadd (fl (3/10)) (fl (2/10))) (fl (1/10))) (fl (1/10))) (fl (15/100))) 1)
     = fl (85/100)"
  "max 0 (min (fadd (fadd (fadd (fadd (fl (3/10)) (fl (2/10))) (fl (1/10))) (fl (1/10))) (- fl (1/10))) 1)
     = fl (6/10)"
  by code_simp+

lemma fl_7_10_neq_1: "fl (7/10) \<noteq> 1"
  by code_simp

lemma scoreCredibility_github_stars_150:
  assumes "source content = Github" and "xd content stars = Some 150"
  shows "scoreCredibility content =
           (if type content = Pdf then fl (85/100)
            else if type content = External_link then fl (6/10) else fl (7/10))"
proof -
  have c: "truthy_num (Some 150)" "gt_num (Some 150) 10" "gt_num (Some 150) 100"
    "\<not> gt_num (Some 150) 1000" "Github \<in> set [Youtube, Github]"
    by (simp_all add: truthy_num_def gt_num_def)
  show ?thesis
    unfolding scoreCredibility_def Let_def assms
    by (cases "type content") (simp_all only: c bump_True bump_False credibility_sums
          ContentSource.distinct ContentType.distinct simp_thms if_True if_False refl)
qed

text \<open>
  C1 (as stated): a single item with source \<open>github\<close> and \<open>stars = 150\<close>, scored
  under category Tech, has credibility sub-score 1.0.  The code gives the repository
  \<open>github_repo_150\<close> another value: the third star bonus needs more than 1000 stars.
\<close>

theorem scoreCredibility_github_150_counterexample:
  "credibility (scores (scoreContent 0 github_repo_150 Tech)) \<noteq> 1"
  by (simp add: scoreContent_credibility scoreCredibility_github_stars_150 github_repo_150_fields
        fl_7_10_neq_1)

text \<open>
  C1 (amended): for an item with source \<open>github\<close> and \<open>stars = 150\<close>, scored under
  category Tech, the credibility sub-score is \<open>0.3 + 0.2 + 0.1 + 0.1\<close>, the double
  0.7 (base, trusted source, more than 10 stars, more than 100 stars); with the further
  0.15 of a pdf it is the double 0.85, and less the 0.1 of an external link the double
  0.6; it is never 1.0.
\<close>

theorem scoreCredibility_github_150:
  assumes "source content = Github" and "xd content stars = Some 150"
  shows "credibility (scores (scoreContent now content Tech)) =
           (if type content = Pdf then fl (85/100)
            else if type content = External_link then fl (6/10) else fl (7/10))"
  using assms
  by (simp only: scoreContent_credibility scoreCredibility_github_stars_150)

theorem scoreCredibility_github_150_witness:
  "source github_repo_150 = Github \<and> xd github_repo_150 stars = Some 150 \<and>
   credibility (scores (scoreContent 0 github_repo_150 Tech)) = fl (7/10)"
  using scoreCredibility_github_150 [of github_repo_150 0]
  by (simp add: github_repo_150_fields)

subsection \<open>Freshness boundaries\<close>

text \<open>The age in days, in doubles, of an item created a whole number of days ago.\<close>

lemma whole_day_ages:
  "fdiv (fl 2505600000) 86400000 = 29" "fdiv (fl 2592000000) 86400000 = 30"
  "fdiv (fl 7689600000) 86400000 = 89" "fdiv (fl 7776000000) 86400000 = 90"
  "fdiv (fl 31449600000) 86400000 = 364" "fdiv (fl 31536000000) 86400000 = 365"
  "fdiv (fl 62985600000) 86400000 = 729" "fdiv (fl 63072000000) 86400000 = 730"
  by code_simp+

lemma ageInDays_ago: "ageInDays now (now - ms) = fdiv (fl (of_int ms)) 86400000"
  by (simp add: ageInDays_def fsub_def)

text \<open>
  C3: the freshness sub-score at the boundaries of the step function.  An item whose
  \<open>created_at\<close> lies exactly \<open>k\<close> days (of 86400000 ms) before the clock reading
  scores 1.0 at 29 days, 0.8 at 30 and 89 days, 0.6 at 90 and 364 days, 0.4 at 365 and
  729 days, and 0.2 at 730 days (each the double that the literal denotes).
\<close>

theorem scoreFreshness_boundaries:
  "scoreFreshness now (content\<lparr>created_at := Some (now - 29 * 86400000)\<rparr>) = 1 \<and>
   scoreFreshness now (content\<lparr>created_at := Some (now - 30 * 86400000)\<rparr>) = fl (8/10) \<and>
   scoreFreshness now (content\<lparr>created_at := Some (now - 89 * 86400000)\<rparr>) = fl (8/10) \<and>
   scoreFreshness now (content\<lparr>created_at := Some (now - 90 * 86400000)\<rparr>) = fl (6/10) \<and>
   scoreFreshness now (content\<lparr>created_at := Some (now - 364 * 86400000)\<rparr>) = fl (6/10) \<and>
   scoreFreshness now (content\<lparr>created_at := Some (now - 365 * 86400000)\<rparr>) = fl (4/10) \<and>
   scoreFreshness now (content\<lparr>created_at := Some (now - 729 * 86400000)\<rparr>) = fl (4/10) \<and>
   scoreFreshness now (content\<lparr>created_at := Some (now - 730 * 86400000)\<rparr>) = fl (2/10)"
  by (simp add: scoreFreshness_def ageInDays_ago whole_day_ages)

subsection \<open>All scores lie in the unit interval\<close>

lemma scoreRelevance_bounds: "0 \<le> scoreRelevance c category \<and> scoreRelevance c category \<le> 1"
proof -
  have "0 \<le> typeBoost c category"
    by (simp add: typeBoost_def Let_def fl_nonneg_iff)
  moreover have "0 \<le> min (fdiv (of_nat (matchCount c category)) 5) 1"
    by (simp add: fdiv_def fl_nonneg_iff)
  ultimately have "0 \<le> fadd (min (fdiv (of_nat (matchCount c category)) 5) 1) (typeBoost c category)"
    by (intro fadd_nonneg)
  then show ?thesis
    by (simp add: scoreRelevance_def Let_def)
qed

lemma bump_nonneg: "0 \<le> score \<Longrightarrow> 0 \<le> d \<Longrightarrow> 0 \<le> bump c d score"
  by (simp add: bump_def fadd_nonneg)

lemma scoreQuality_bounds: "0 \<le> scoreQuality c \<and> scoreQuality c \<le> 1"
  unfolding scoreQuality_def Let_def
  by (intro conjI min.boundedI bump_nonneg min.cobounded2) (simp_all add: fl_nonneg_iff)

lemma scoreCredibility_bounds: "0 \<le> scoreCredibility c \<and> scoreCredibility c \<le> 1"
  by (simp add: scoreCredibility_def Let_def)

lemma scoreEngagement_bounds: "0 \<le> scoreEngagement c \<and> scoreEngagement c \<le> 1"
  by (simp add: scoreEngagement_def Let_def)

lemma scoreFreshness_bounds: "0 \<le> scoreFreshness now c \<and> scoreFreshness now c \<le> 1"
  using fl_unit_interval [of "8/10"] fl_unit_interval [of "6/10"] fl_unit_interval [of "4/10"]
    fl_unit_interval [of "2/10"]
  by (simp add: scoreFreshness_def split: option.split)

lemma weights_nonneg:
  "0 \<le> relevance (CATEGORY_WEIGHTS category)" "0 \<le> quality (CATEGORY_WEIGHTS category)"
  "0 \<le> credibility (CATEGORY_WEIGHTS category)" "0 \<le> engagement (CATEGORY_WEIGHTS category)"
  "0 \<le> freshness (CATEGORY_WEIGHTS category)"
  by (cases category; simp add: fl_nonneg_iff)+

text \<open>The sum of the weights of a category, as the doubles add up, does not exceed 1.\<close>

lemma weights_sum_Finance: "weightedSum all_ones (CATEGORY_WEIGHTS Finance) \<le> 1"
  by code_simp
lemma weights_sum_Entertainment: "weightedSum all_ones (CATEGORY_WEIGHTS Entertainment) \<le> 1"
  by code_simp
lemma weights_sum_Design: "weightedSum all_ones (CATEGORY_WEIGHTS Design) \<le> 1"
  by code_simp
lemma weights_sum_Legal: "weightedSum all_ones (CATEGORY_WEIGHTS Legal) \<le> 1"
  by code_simp
lemma weights_sum_Tech: "weightedSum all_ones (CATEGORY_WEIGHTS Tech) \<le> 1"
  by code_simp
lemma weights_sum_Marketing: "weightedSum all_ones (CATEGORY_WEIGHTS Marketing) \<le> 1"
  by code_simp
lemma weights_sum_Influencers: "weightedSum all_ones (CATEGORY_WEIGHTS Influencers) \<le> 1"
  by code_simp
lemma weights_sum_Business: "weightedSum all_ones (CATEGORY_WEIGHTS Business) \<le> 1"
  by code_simp

lemma weights_sum: "weightedSum all_ones (CATEGORY_WEIGHTS category) \<le> 1"
  by (cases category)
     (simp_all only: weights_sum_Finance weights_sum_Entertainment weights_sum_Design
        weights_sum_Legal weights_sum_Tech weights_sum_Marketing weights_sum_Influencers
        weights_sum_Business)

lemma weightedSum_bounds:
  assumes s: "0 \<le> relevance s" "relevance s \<le> 1" "0 \<le> quality s" "quality s \<le> 1"
    "0 \<le> credibility s" "credibility s \<le> 1" "0 \<le> engagement s" "engagement s \<le> 1"
    "0 \<le> freshness s" "freshness s \<le> 1"
    and w: "0 \<le> relevance w" "0 \<le> quality w" "0 \<le> credibility w" "0 \<le> engagement w"
    "0 \<le> freshness w"
  shows "0 \<le> weightedSum s w \<and> weightedSum s w \<le> weightedSum all_ones w"
proof
  show "0 \<le> weightedSum s w"
    unfolding weightedSum_def using s w by (intro fadd_nonneg fmul_nonneg)
  show "weightedSum s w \<le> weightedSum all_ones w"
    unfolding weightedSum_def all_ones_def ContentScores.simps
    using s w by (intro fadd_mono fmul_le_one_left)
qed

lemma math_round_percent_bounds:
  assumes "0 \<le> x" "x \<le> 1"
  shows "0 \<le> fdiv (math_round (fmul x 100)) 100 \<and> fdiv (math_round (fmul x 100)) 100 \<le> 1"
proof -
  let ?y = "fmul x 100"
  have h: "fl 100 = 100" by code_simp
  have y0: "0 \<le> ?y" using assms by (simp add: fmul_def fl_nonneg_iff)
  have "?y \<le> fl 100" unfolding fmul_def using assms by (intro fl_mono) simp
  then have y1: "?y \<le> 100" using h by simp
  have lo: "(0::int) \<le> \<lfloor>?y + 1 / 2\<rfloor>"
    using y0 by (simp add: le_floor_iff)
  have "?y + 1 / 2 < of_int (101::int)"
    using y1 by simp
  then have "\<lfloor>?y + 1 / 2\<rfloor> < (101::int)"
    by (simp only: floor_less_iff)
  then have hi: "\<lfloor>?y + 1 / 2\<rfloor> \<le> (100::int)"
    by simp
  from lo hi have "(0::rat) \<le> of_int \<lfloor>?y + 1 / 2\<rfloor> \<and>
      (of_int \<lfloor>?y + 1 / 2\<rfloor> :: rat) \<le> 100"
    by (metis of_int_0_le_iff of_int_le_iff of_int_numeral)
  then have "0 \<le> math_round ?y / 100 \<and> math_round ?y / 100 \<le> 1"
    by (simp add: math_round_def)
  then show ?thesis
    unfolding fdiv_def using fl_unit_interval by blast
qed

lemma final_score_bounds:
  "0 \<le> final_score (scoreContent now content category) \<and>
   final_score (scoreContent now content category) \<le> 1"
proof -
  let ?s = "\<lparr>relevance = scoreRelevance content category, quality = scoreQuality content,
             credibility = scoreCredibility content, engagement = scoreEngagement content,
             freshness = scoreFreshness now content\<rparr>"
  have "0 \<le> weightedSum ?s (CATEGORY_WEIGHTS category) \<and>
        weightedSum ?s (CATEGORY_WEIGHTS category) \<le> weightedSum all_ones (CATEGORY_WEIGHTS category)"
    by (rule weightedSum_bounds)
       (simp_all add: scoreRelevance_bounds scoreQuality_bounds scoreCredibility_bounds
          scoreEngagement_bounds scoreFreshness_bounds weights_nonneg)
  then have "0 \<le> weightedSum ?s (CATEGORY_WEIGHTS category) \<and>
        weightedSum ?s (CATEGORY_WEIGHTS category) \<le> 1"
    using weights_sum [of category] by linarith
  then have "0 \<le> fdiv (math_round (fmul (weightedSum ?s (CATEGORY_WEIGHTS category)) 100)) 100 \<and>
             fdiv (math_round (fmul (weightedSum ?s (CATEGORY_WEIGHTS category)) 100)) 100 \<le> 1"
    using math_round_percent_bounds by blast
  then show ?thesis
    by (simp add: scoreContent_def Let_def)
qed

text \<open>
  C4: for every content item, category and clock reading, each of the five sub-scores
  and the final score that \<open>scoreContent\<close> returns lies in the interval from 0 to 1.
  The scores are the doubles the code computes: every sum, product and quotient is
  rounded.
\<close>

theorem scoreContent_scores_in_unit_interval:
  "0 \<le> relevance (scores (scoreContent now content category)) \<and>
   relevance (scores (scoreContent now content category)) \<le> 1 \<and>
   0 \<le> quality (scores (scoreContent now content category)) \<and>
   quality (scores (scoreContent now content category)) \<le> 1 \<and>
   0 \<le> credibility (scores (scoreContent now content category)) \<and>
   credibility (scores (scoreContent now content category)) \<le> 1 \<and>
   0 \<le> engagement (scores (scoreContent now content category)) \<and>
   engagement (scores (scoreContent now content category)) \<le> 1 \<and>
   0 \<le> freshness (scores (scoreContent now content category)) \<and>
   freshness (scores (scoreContent now content category)) \<le> 1 \<and>
   0 \<le> final_score (scoreContent now content category) \<and>
   final_score (scoreContent now content category) \<le> 1"
proof -
  have sub: "scores (scoreContent now content category) =
      \<lparr>relevance = scoreRelevance content category, quality = scoreQuality content,
       credibility = scoreCredibility content, engagement = scoreEngagement content,
       freshness = scoreFreshness now content\<rparr>"
    by (simp add: scoreContent_def Let_def)
  show ?thesis
    unfolding sub
    using scoreRelevance_bounds [of content category] scoreQuality_bounds [of content]
      scoreCredibility_bounds [of content] scoreEngagement_bounds [of content]
      scoreFreshness_bounds [of now content] final_score_bounds [of now content category]
    by simp
qed

subsection \<open>The batch is sorted and the sort is stable\<close>

lemma insert_cmp_set: "set (insert_cmp cmp x ys) = insert x (set ys)"
  by (induction ys) auto

lemma insert_cmp_desc_sorted:
  "sorted_wrt (\<lambda>a b. f b \<le> f a) ys \<Longrightarrow>
   sorted_wrt (\<lambda>a b. f b \<le> f a) (insert_cmp (\<lambda>a b. fsub (f b) (f a)) x ys)"
  by (induction ys) (auto simp: insert_cmp_set fsub_le_0_iff)

lemma insert_cmp_desc_filter:
  "filter (\<lambda>s. f s = v) (insert_cmp (\<lambda>a b. fsub (f b) (f a)) x ys) =
   (if f x = v then x # filter (\<lambda>s. f s = v) ys else filter (\<lambda>s. f s = v) ys)"
  by (induction ys) (auto simp: fsub_le_0_iff)

lemma array_sort_desc_sorted:
  "sorted_wrt (\<lambda>a b. f b \<le> f a) (array_sort (\<lambda>a b. fsub (f b) (f a)) xs)"
  by (induction xs) (simp_all add: array_sort_def insert_cmp_desc_sorted)

lemma array_sort_desc_filter:
  "filter (\<lambda>s. f s = v) (array_sort (\<lambda>a b. fsub (f b) (f a)) xs) = filter (\<lambda>s. f s = v) xs"
  by (induction xs) (simp_all add: array_sort_def insert_cmp_desc_filter)

text \<open>
  C2: for every input list, category and clock, \<open>scoreContentBatch\<close> returns the
  scored items in descending order of \<open>final_score\<close>, and for every score value the
  items with that score appear in the output in the same order as in the input (the
  sort is stable).
\<close>

theorem scoreContentBatch_sorted_stable:
  "sorted_wrt (\<lambda>a b. final_score b \<le> final_score a) (scoreContentBatch clock contents category) \<and>
   (\<forall>v. filter (\<lambda>s. final_score s = v) (scoreContentBatch clock contents category) =
        filter (\<lambda>s. final_score s = v)
          (map (\<lambda>(i, content). scoreContent (clock i) content category) (enumerate 0 contents)))"
  by (simp add: scoreContentBatch_def array_sort_desc_sorted array_sort_desc_filter)

section \<open>Properties of the section assigner\<close>

lemma ids_simps: "ids [] = {}" "ids (x # xs) = insert (content_id x) (ids xs)"
  "ids (xs @ ys) = ids xs \<union> ids ys"
  by (auto simp: ids_def)

lemma assign_inv_defined: "assign_inv (a, u) \<Longrightarrow> \<exists>l. a s = Some l"
  unfolding assign_inv_def fst_conv snd_conv by blast

lemma assign_inv_sub: "assign_inv (a, u) \<Longrightarrow> a s = Some l \<Longrightarrow> ids l \<subseteq> u"
proof -
  assume inv: "assign_inv (a, u)" and l: "a s = Some l"
  from inv have "\<exists>l'. a s = Some l' \<and> ids l' \<subseteq> u"
    unfolding assign_inv_def fst_conv snd_conv by blast
  with l show ?thesis by simp
qed

lemma assign_inv_disjoint:
  "assign_inv (a, u) \<Longrightarrow> s1 \<noteq> s2 \<Longrightarrow> a s1 = Some l1 \<Longrightarrow> a s2 = Some l2 \<Longrightarrow>
   ids l1 \<inter> ids l2 = {}"
  unfolding assign_inv_def fst_conv snd_conv by blast

lemma foldE_pushContent:
  "a sid = Some l \<Longrightarrow>
   \<exists>a'. foldE (pushContent sid) cs (a, u) = Inr (a', ids cs \<union> u) \<and>
        a' sid = Some (l @ cs) \<and> (\<forall>s. s \<noteq> sid \<longrightarrow> a' s = a s)"
proof (induction cs arbitrary: a u l)
  case Nil
  then show ?case by (simp add: ids_simps)
next
  case (Cons c cs)
  let ?a1 = "a(sid \<mapsto> l @ [c])"
  let ?u1 = "insert (content_id c) u"
  have step: "pushContent sid c (a, u) = Inr (?a1, ?u1)"
    using Cons.prems by (simp add: pushContent_def)
  have upd: "?a1 sid = Some (l @ [c])" by simp
  obtain a' where r: "foldE (pushContent sid) cs (?a1, ?u1) = Inr (a', ids cs \<union> ?u1)"
    and here: "a' sid = Some ((l @ [c]) @ cs)" and there: "\<forall>s. s \<noteq> sid \<longrightarrow> a' s = ?a1 s"
    using Cons.IH [of ?a1 "l @ [c]" ?u1] upd by blast
  have "foldE (pushContent sid) (c # cs) (a, u) = Inr (a', ids (c # cs) \<union> u)"
    using step r by (simp add: ids_simps)
  moreover have "a' sid = Some (l @ c # cs)" using here by simp
  moreover have "\<forall>s. s \<noteq> sid \<longrightarrow> a' s = a s" using there by simp
  ultimately show ?case by blast
qed

lemma push_assign_inv:
  assumes inv: "assign_inv (a, u)" and fresh: "ids cs \<inter> u = {}" and l: "a sid = Some l"
    and here: "a' sid = Some (l @ cs)" and there: "\<forall>s. s \<noteq> sid \<longrightarrow> a' s = a s"
  shows "assign_inv (a', ids cs \<union> u)"
proof -
  have p1: "\<exists>l'. a' s = Some l' \<and> ids l' \<subseteq> ids cs \<union> u" for s
  proof (cases "s = sid")
    case True
    then show ?thesis using here assign_inv_sub [OF inv l] by (auto simp: ids_simps)
  next
    case False
    obtain l' where l': "a s = Some l'" using assign_inv_defined [OF inv] by blast
    then show ?thesis using False there assign_inv_sub [OF inv l'] by auto
  qed
  have other: "ids (l @ cs) \<inter> ids l2 = {}" if "s2 \<noteq> sid" "a s2 = Some l2" for s2 l2
  proof -
    have "ids l \<inter> ids l2 = {}"
      using assign_inv_disjoint [OF inv _ l that(2)] that(1) by blast
    moreover have "ids cs \<inter> ids l2 = {}"
      using assign_inv_sub [OF inv that(2)] fresh by blast
    ultimately show ?thesis by (auto simp: ids_simps)
  qed
  have p2: "ids l1 \<inter> ids l2 = {}"
    if "s1 \<noteq> s2" "a' s1 = Some l1" "a' s2 = Some l2" for s1 s2 l1 l2
  proof -
    consider "s1 = sid" | "s2 = sid" | "s1 \<noteq> sid" "s2 \<noteq> sid" by blast
    then show ?thesis
    proof cases
      case 1
      then have "l1 = l @ cs" "s2 \<noteq> sid" "a s2 = Some l2" using that here there by auto
      then show ?thesis using other by blast
    next
      case 2
      then have "l2 = l @ cs" "s1 \<noteq> sid" "a s1 = Some l1" using that here there by auto
      then show ?thesis using other [of s1 l1] by blast
    next
      case 3
      then have "a s1 = Some l1" "a s2 = Some l2" using that there by auto
      then show ?thesis using assign_inv_disjoint [OF inv that(1)] by blast
    qed
  qed
  show ?thesis
    unfolding assign_inv_def fst_conv snd_conv using p1 p2 by blast
qed

lemma push_list_inv:
  assumes inv: "assign_inv (a, u)" and fresh: "ids cs \<inter> u = {}"
  shows "\<exists>st'. foldE (pushContent sid) cs (a, u) = Inr st' \<and> assign_inv st'"
proof -
  obtain l where l: "a sid = Some l"
    using assign_inv_defined [OF inv] by blast
  obtain a' where r: "foldE (pushContent sid) cs (a, u) = Inr (a', ids cs \<union> u)"
    and here: "a' sid = Some (l @ cs)" and there: "\<forall>s. s \<noteq> sid \<longrightarrow> a' s = a s"
    using foldE_pushContent [of a sid l cs u] l by blast
  have "assign_inv (a', ids cs \<union> u)"
    using inv fresh l here there by (rule push_assign_inv)
  with r show ?thesis by blast
qed

lemma candidates_fresh:
  "ids (take k (filter P (filter (\<lambda>c. content_id c \<notin> u) xs))) \<inter> u = {}"
proof -
  have "set (take k (filter P (filter (\<lambda>c. content_id c \<notin> u) xs)))
        \<subseteq> set (filter P (filter (\<lambda>c. content_id c \<notin> u) xs))"
    by (rule set_take_subset)
  then show ?thesis by (auto simp: ids_def)
qed

lemma remaining_fresh:
  "ids (take k (filter (\<lambda>c. content_id c \<notin> u) xs)) \<inter> u = {}"
proof -
  have "set (take k (filter (\<lambda>c. content_id c \<notin> u) xs))
        \<subseteq> set (filter (\<lambda>c. content_id c \<notin> u) xs)"
    by (rule set_take_subset)
  then show ?thesis by (auto simp: ids_def)
qed

lemma firstPass_inv:
  assumes "assign_inv st"
  shows "\<exists>st'. firstPass scoredContent category config st = Inr st' \<and> assign_inv st'"
proof (cases st)
  case (Pair a u)
  show ?thesis
  proof (cases "id config = Action")
    case True
    then show ?thesis using assms by (simp add: firstPass_def)
  next
    case False
    have inv: "assign_inv (a, u)" using assms Pair by simp
    show ?thesis
      unfolding Pair firstPass_def Let_def snd_conv
      using False push_list_inv [OF inv candidates_fresh] by simp
  qed
qed

lemma secondPass_inv:
  assumes "assign_inv st"
  shows "\<exists>st'. secondPass scoredContent config st = Inr st' \<and> assign_inv st'"
proof (cases st)
  case (Pair a u)
  have inv: "assign_inv (a, u)" using assms Pair by simp
  obtain l where l: "a (id config) = Some l"
    using assign_inv_defined [OF inv] by blast
  show ?thesis
    unfolding Pair secondPass_def Let_def snd_conv fst_conv
    using inv l push_list_inv [OF inv remaining_fresh] by simp
qed

lemma foldE_inv:
  assumes step: "\<And>x st. I st \<Longrightarrow> \<exists>st'. f x st = Inr st' \<and> I st'"
  shows "I st \<Longrightarrow> \<exists>st'. foldE f xs st = Inr st' \<and> I st'"
proof (induction xs arbitrary: st)
  case Nil
  then show ?case by simp
next
  case (Cons x xs)
  obtain st1 where "f x st = Inr st1" "I st1" using step [OF Cons.prems] by blast
  then show ?case using Cons.IH [of st1] by simp
qed

lemma initAssignments_apply: "initAssignments s = Some []"
  by (cases s) (simp_all add: initAssignments_def SECTION_CONFIGS_def)

lemma init_inv: "assign_inv (initAssignments, {})"
  unfolding assign_inv_def fst_conv snd_conv
  by (simp add: initAssignments_apply ids_simps)

lemma assign_total:
  "\<exists>m. assignContentToSections scoredContent category = Inr m \<and> (\<forall>s. \<exists>l. m s = Some l)"
proof -
  obtain st1 where s1: "foldE (firstPass scoredContent category) SECTION_CONFIGS (initAssignments, {}) = Inr st1"
    and i1: "assign_inv st1"
    using foldE_inv [of assign_inv "firstPass scoredContent category", OF firstPass_inv init_inv]
    by blast
  obtain st2 where s2: "foldE (secondPass scoredContent) SECTION_CONFIGS st1 = Inr st2"
    and i2: "assign_inv st2"
    using foldE_inv [of assign_inv "secondPass scoredContent", OF secondPass_inv i1]
    by blast
  have "assignContentToSections scoredContent category = Inr (fst st2)"
    by (simp add: assignContentToSections_def s1 s2)
  moreover have "\<forall>s. \<exists>l. fst st2 s = Some l"
    using i2 unfolding assign_inv_def by blast
  ultimately show ?thesis by blast
qed

lemma distinct_ids_append:
  assumes "distinct (map content_id l)" and "distinct (map content_id cs)"
    and "ids l \<inter> ids cs = {}"
  shows "distinct (map content_id (l @ cs))"
  using assms by (simp add: ids_def)

lemma push_list_inv2:
  assumes inv: "assign_inv (a, u)" and d: "distinct_inv (a, u)"
    and fresh: "ids cs \<inter> u = {}" and dc: "distinct (map content_id cs)"
  shows "\<exists>st'. foldE (pushContent sid) cs (a, u) = Inr st' \<and> assign_inv st' \<and> distinct_inv st'"
proof -
  obtain l where l: "a sid = Some l"
    using assign_inv_defined [OF inv] by blast
  obtain a' where r: "foldE (pushContent sid) cs (a, u) = Inr (a', ids cs \<union> u)"
    and here: "a' sid = Some (l @ cs)" and there: "\<forall>s. s \<noteq> sid \<longrightarrow> a' s = a s"
    using foldE_pushContent [of a sid l cs u] l by blast
  have i: "assign_inv (a', ids cs \<union> u)"
    using inv fresh l here there by (rule push_assign_inv)
  have dl: "distinct (map content_id l)"
    using d l unfolding distinct_inv_def by simp
  have "ids l \<inter> ids cs = {}"
    using assign_inv_sub [OF inv l] fresh by blast
  then have dn: "distinct (map content_id (l @ cs))"
    using dl dc by (intro distinct_ids_append)
  have "distinct (map content_id l')" if "a' s = Some l'" for s l'
  proof (cases "s = sid")
    case True
    then show ?thesis using that here dn by simp
  next
    case False
    then have "a s = Some l'" using that there by simp
    then show ?thesis using d unfolding distinct_inv_def by simp
  qed
  then have "distinct_inv (a', ids cs \<union> u)"
    unfolding distinct_inv_def by simp
  with r i show ?thesis by blast
qed

lemma candidates_distinct:
  "distinct (map content_id xs) \<Longrightarrow> distinct (map content_id (take k (filter P (filter Q xs))))"
  by (simp add: take_map [symmetric] distinct_map_filter)

lemma remaining_distinct:
  "distinct (map content_id xs) \<Longrightarrow> distinct (map content_id (take k (filter Q xs)))"
  by (simp add: take_map [symmetric] distinct_map_filter)

lemma firstPass_inv2:
  assumes dx: "distinct (map content_id scoredContent)"
    and "assign_inv st \<and> distinct_inv st"
  shows "\<exists>st'. firstPass scoredContent category config st = Inr st' \<and> assign_inv st' \<and> distinct_inv st'"
proof (cases st)
  case (Pair a u)
  show ?thesis
  proof (cases "id config = Action")
    case True
    then show ?thesis using assms by (simp add: firstPass_def)
  next
    case False
    have inv: "assign_inv (a, u)" "distinct_inv (a, u)" using assms Pair by simp_all
    show ?thesis
      unfolding Pair firstPass_def Let_def snd_conv
      using False push_list_inv2 [OF inv candidates_fresh candidates_distinct [OF dx]] by simp
  qed
qed

lemma secondPass_inv2:
  assumes dx: "distinct (map content_id scoredContent)"
    and "assign_inv st \<and> distinct_inv st"
  shows "\<exists>st'. secondPass scoredContent config st = Inr st' \<and> assign_inv st' \<and> distinct_inv st'"
proof (cases st)
  case (Pair a u)
  have inv: "assign_inv (a, u)" "distinct_inv (a, u)" using assms Pair by simp_all
  obtain l where l: "a (id config) = Some l"
    using assign_inv_defined [OF inv(1)] by blast
  show ?thesis
    unfolding Pair secondPass_def Let_def snd_conv fst_conv
    using inv l push_list_inv2 [OF inv remaining_fresh remaining_distinct [OF dx]] by simp
qed

lemma init_distinct_inv: "distinct_inv (initAssignments, {})"
  unfolding distinct_inv_def fst_conv by (simp add: initAssignments_apply)

text \<open>
  C7: for every input list with distinct content ids and every category,
  \<open>assignContentToSections\<close> returns (it raises no error), every section has an
  array in which no content id occurs twice, and no content id occurs in the arrays of
  two different sections.  The result is the state after both passes, the greedy fill
  and the backfill.
\<close>

theorem assignContentToSections_disjoint:
  assumes "distinct (map content_id scoredContent)"
  shows "\<exists>assignments. assignContentToSections scoredContent category = Inr assignments \<and>
     (\<forall>s. \<exists>l. assignments s = Some l \<and> distinct (map content_id l)) \<and>
     (\<forall>s1 s2 l1 l2. s1 \<noteq> s2 \<longrightarrow> assignments s1 = Some l1 \<longrightarrow> assignments s2 = Some l2 \<longrightarrow>
        content_id ` set l1 \<inter> content_id ` set l2 = {})"
proof -
  let ?I = "\<lambda>st. assign_inv st \<and> distinct_inv st"
  have i0: "?I (initAssignments, {})"
    using init_inv init_distinct_inv by simp
  obtain st1 where s1: "foldE (firstPass scoredContent category) SECTION_CONFIGS (initAssignments, {}) = Inr st1"
    and i1: "?I st1"
    using foldE_inv [of ?I "firstPass scoredContent category", OF firstPass_inv2 [OF assms] i0]
    by blast
  obtain st2 where s2: "foldE (secondPass scoredContent) SECTION_CONFIGS st1 = Inr st2"
    and i2: "?I st2"
    using foldE_inv [of ?I "secondPass scoredContent", OF secondPass_inv2 [OF assms] i1]
    by blast
  have r: "assignContentToSections scoredContent category = Inr (fst st2)"
    by (simp add: assignContentToSections_def s1 s2)
  have a: "\<forall>s. \<exists>l. fst st2 s = Some l \<and> distinct (map content_id l)"
    using i2 unfolding assign_inv_def distinct_inv_def by blast
  have b: "\<forall>s1 s2 l1 l2. s1 \<noteq> s2 \<longrightarrow> fst st2 s1 = Some l1 \<longrightarrow> fst st2 s2 = Some l2 \<longrightarrow>
        content_id ` set l1 \<inter> content_id ` set l2 = {}"
    using i2 unfolding assign_inv_def ids_def by blast
  from r a b show ?thesis by blast
qed

lemma scoreContent_content_id: "content_id (scoreContent now content category) = content_id content"
  by (simp add: scoreContent_def Let_def)

theorem assignContentToSections_disjoint_witness:
  "distinct (map content_id two_scored_items) \<and>
   (\<exists>assignments. assignContentToSections two_scored_items Tech = Inr assignments \<and>
     (\<forall>s. \<exists>l. assignments s = Some l \<and> distinct (map content_id l)) \<and>
     (\<forall>s1 s2 l1 l2. s1 \<noteq> s2 \<longrightarrow> assignments s1 = Some l1 \<longrightarrow> assignments s2 = Some l2 \<longrightarrow>
        content_id ` set l1 \<inter> content_id ` set l2 = {}))"
proof -
  have d: "distinct (map content_id two_scored_items)"
    by (simp add: two_scored_items_def scoreContent_content_id video_upload_def pdf_upload_def)
  from d assignContentToSections_disjoint [OF d, of Tech] show ?thesis
    by (rule conjI)
qed

section \<open>Properties of the block-type selector\<close>

lemma findConfig_simps:
  "findConfig Hook = Some (SECTION_CONFIGS ! 0)"
  "findConfig Credibility = Some (SECTION_CONFIGS ! 1)"
  "findConfig Work = Some (SECTION_CONFIGS ! 2)"
  "findConfig Process = Some (SECTION_CONFIGS ! 3)"
  "findConfig Action = Some (SECTION_CONFIGS ! 4)"
  by (simp_all add: findConfig_def SECTION_CONFIGS_def)

lemma findConfig_total:
  "\<exists>cfg. findConfig sectionId = Some cfg \<and> id cfg = sectionId \<and> preferredTypes cfg \<noteq> []"
  by (cases sectionId) (simp_all add: findConfig_def SECTION_CONFIGS_def)

lemma selectBlockType_total: "\<exists>t. selectBlockType content sectionId category = Inr (Some t)"
  by (cases sectionId; cases "type content")
     (simp_all add: selectBlockType_def findConfig_def SECTION_CONFIGS_def first_elem_def Let_def)

text \<open>
  C6: \<open>selectBlockType\<close> is total.  For every content item, section id and category
  it returns a block type: it neither raises nor returns \<open>undefined\<close>.  The lookup of
  the section configuration succeeds for every section id, and the list of preferred
  types of the configuration found is not empty.
\<close>

theorem selectBlockType_is_total:
  "(\<exists>t. selectBlockType content sectionId category = Inr (Some t)) \<and>
   (\<exists>cfg. findConfig sectionId = Some cfg \<and> id cfg = sectionId \<and> preferredTypes cfg \<noteq> [])"
  using selectBlockType_total findConfig_total by blast

section \<open>Properties of composePortfolio\<close>

lemma buildBlocks_total: "\<exists>bs n'. buildBlocks uuid n sectionId category cs = Inr (bs, n')"
proof (induction cs arbitrary: n)
  case Nil
  show ?case by simp
next
  case (Cons c cs)
  obtain t where t: "selectBlockType c sectionId category = Inr (Some t)"
    using selectBlockType_total by blast
  obtain b n1 where b: "buildBlock uuid n c (Some t) sectionId = (b, n1)"
    by (cases "buildBlock uuid n c (Some t) sectionId") blast
  obtain bs n2 where r: "buildBlocks uuid n1 sectionId category cs = Inr (bs, n2)"
    using Cons.IH by blast
  show ?case by (simp add: t b r)
qed

lemma buildSection_total:
  "\<exists>sec n'. buildSection uuid n sectionId cs category = Inr (sec, n') \<and>
            section_id sec = sectionId \<and> order sec = order_of sectionId"
proof -
  obtain bs n1 where r: "buildBlocks uuid n sectionId category cs = Inr (bs, n1)"
    using buildBlocks_total by blast
  then show ?thesis
    by (cases sectionId) (simp_all add: buildSection_def findConfig_def SECTION_CONFIGS_def)
qed

lemma composeStep_action:
  "id config = Action \<Longrightarrow>
   \<exists>a n1. composeStep uuid m category userId ttl config (secs, n) = Inr (secs @ [a], n1) \<and>
          section_id a = Action \<and> order a = 5 \<and>
          map block_type (blocks a) = [Cta] \<and>
          map visibility (blocks a) = [\<lparr>initial = Expanded, priority = High\<rparr>]"
  by (simp add: composeStep_def buildCTASection_def generateBlockId_def generateId_def)

lemma composeStep_required:
  assumes "id config \<noteq> Action" and "required config" and "m (id config) = Some l"
  shows "\<exists>sec n1. composeStep uuid m category userId ttl config (secs, n) = Inr (secs @ [sec], n1) \<and>
           section_id sec = id config \<and> order sec = order_of (id config)"
proof -
  obtain sec n1 where "buildSection uuid n (id config) l category = Inr (sec, n1)"
    and "section_id sec = id config" and "order sec = order_of (id config)"
    using buildSection_total by blast
  then show ?thesis using assms by (simp add: composeStep_def)
qed

lemma composeStep_optional:
  assumes "id config \<noteq> Action" and "\<not> required config" and "m (id config) = Some l"
  shows "\<exists>pre n1. composeStep uuid m category userId ttl config (secs, n) = Inr (secs @ pre, n1) \<and>
           (pre = [] \<and> l = [] \<or>
            (\<exists>sec. pre = [sec] \<and> l \<noteq> [] \<and> section_id sec = id config \<and> order sec = order_of (id config)))"
proof (cases "l = []")
  case True
  then show ?thesis using assms by (simp add: composeStep_def)
next
  case False
  obtain sec n1 where "buildSection uuid n (id config) l category = Inr (sec, n1)"
    and "section_id sec = id config" and "order sec = order_of (id config)"
    using buildSection_total by blast
  then show ?thesis using assms False by (simp add: composeStep_def)
qed

lemma compose_fold:
  assumes defined: "\<forall>s. \<exists>l. m s = Some l"
  shows "\<exists>h c w pre a n1.
     foldE (composeStep uuid m category userId ttl) SECTION_CONFIGS ([], n) = Inr ([h, c, w] @ pre @ [a], n1) \<and>
     section_id h = Hook \<and> order h = 1 \<and>
     section_id c = Credibility \<and> order c = 2 \<and>
     section_id w = Work \<and> order w = 3 \<and>
     (pre = [] \<and> m Process = Some [] \<or>
      (\<exists>pr. pre = [pr] \<and> m Process \<noteq> Some [] \<and> section_id pr = Process \<and> order pr = 4)) \<and>
     section_id a = Action \<and> order a = 5 \<and>
     map block_type (blocks a) = [Cta] \<and>
     map visibility (blocks a) = [\<lparr>initial = Expanded, priority = High\<rparr>]"
proof -
  let ?step = "composeStep uuid m category userId ttl"
  let ?c0 = "SECTION_CONFIGS ! 0" and ?c1 = "SECTION_CONFIGS ! 1" and ?c2 = "SECTION_CONFIGS ! 2"
  let ?c3 = "SECTION_CONFIGS ! 3" and ?c4 = "SECTION_CONFIGS ! 4"
  have cfgs: "SECTION_CONFIGS = [?c0, ?c1, ?c2, ?c3, ?c4]"
    by (simp add: SECTION_CONFIGS_def)
  have f0: "id ?c0 = Hook" "required ?c0" and f1: "id ?c1 = Credibility" "required ?c1"
    and f2: "id ?c2 = Work" "required ?c2" and f3: "id ?c3 = Process" "\<not> required ?c3"
    and f4: "id ?c4 = Action"
    by (simp_all add: SECTION_CONFIGS_def)
  obtain lh lc lw lp where l: "m Hook = Some lh" "m Credibility = Some lc" "m Work = Some lw"
      "m Process = Some lp"
    using defined by metis
  obtain h n1 where s0: "?step ?c0 ([], n) = Inr ([] @ [h], n1)" and h: "section_id h = Hook" "order h = 1"
    using composeStep_required [of ?c0 m lh uuid category userId ttl "[]" n] f0 l by auto
  obtain c n2 where s1: "?step ?c1 ([h], n1) = Inr ([h] @ [c], n2)"
    and c: "section_id c = Credibility" "order c = 2"
    using composeStep_required [of ?c1 m lc uuid category userId ttl "[h]" n1] f1 l by auto
  obtain w n3 where s2: "?step ?c2 ([h, c], n2) = Inr ([h, c] @ [w], n3)"
    and w: "section_id w = Work" "order w = 3"
    using composeStep_required [of ?c2 m lw uuid category userId ttl "[h, c]" n2] f2 l by auto
  obtain pre n4 where s3: "?step ?c3 ([h, c, w], n3) = Inr ([h, c, w] @ pre, n4)"
    and pre: "pre = [] \<and> lp = [] \<or> (\<exists>pr. pre = [pr] \<and> lp \<noteq> [] \<and> section_id pr = Process \<and> order pr = 4)"
    using composeStep_optional [of ?c3 m lp uuid category userId ttl "[h, c, w]" n3] f3 l by auto
  obtain a n5 where s4: "?step ?c4 ([h, c, w] @ pre, n4) = Inr (([h, c, w] @ pre) @ [a], n5)"
    and a: "section_id a = Action" "order a = 5" "map block_type (blocks a) = [Cta]"
      "map visibility (blocks a) = [\<lparr>initial = Expanded, priority = High\<rparr>]"
    using composeStep_action [OF f4, where uuid = uuid and m = m and category = category
        and userId = userId and ttl = ttl and secs = "[h, c, w] @ pre" and n = n4] by auto
  have "foldE ?step SECTION_CONFIGS ([], n) = Inr ([h, c, w] @ pre @ [a], n5)"
    apply (subst cfgs)
    using s0 s1 s2 s3 s4 by simp
  then show ?thesis using h c w pre a l by auto
qed

lemma insert_cmp_asc_head:
  "(\<forall>y\<in>set ys. f x \<le> f y) \<Longrightarrow> insert_cmp (\<lambda>a b. f a - f b) x ys = x # ys"
  by (cases ys) auto

lemma array_sort_asc_id:
  "sorted_wrt (\<lambda>a b. f a \<le> f b) xs \<Longrightarrow> array_sort (\<lambda>a b. f a - f b) xs = xs"
proof (induction xs)
  case Nil
  show ?case by (simp add: array_sort_def)
next
  case (Cons x xs)
  then have "array_sort (\<lambda>a b. f a - f b) xs = xs" by simp
  then have "array_sort (\<lambda>a b. f a - f b) (x # xs) = insert_cmp (\<lambda>a b. f a - f b) x xs"
    by (simp add: array_sort_def)
  also have "\<dots> = x # xs"
    using Cons.prems by (intro insert_cmp_asc_head) simp
  finally show ?case .
qed

lemma composePortfolio_shape:
  "\<exists>p h c w pre a.
     composePortfolio uuid isoNow scoredContent options = Inr p \<and>
     sections p = [h, c, w] @ pre @ [a] \<and>
     section_id h = Hook \<and> order h = 1 \<and>
     section_id c = Credibility \<and> order c = 2 \<and>
     section_id w = Work \<and> order w = 3 \<and>
     (pre = [] \<or> (\<exists>pr. pre = [pr] \<and> section_id pr = Process \<and> order pr = 4)) \<and>
     section_id a = Action \<and> order a = 5 \<and>
     map block_type (blocks a) = [Cta] \<and>
     map visibility (blocks a) = [\<lparr>initial = Expanded, priority = High\<rparr>]"
proof -
  obtain m where m: "assignContentToSections scoredContent (opt_category options) = Inr m"
    and defined: "\<forall>s. \<exists>l. m s = Some l"
    using assign_total by blast
  obtain h c w pre a n1 where
    fold: "foldE (composeStep uuid m (opt_category options) (opt_userId options) (opt_title options))
             SECTION_CONFIGS ([], Suc 0) = Inr ([h, c, w] @ pre @ [a], n1)"
    and h: "section_id h = Hook" "order h = 1"
    and c: "section_id c = Credibility" "order c = 2"
    and w: "section_id w = Work" "order w = 3"
    and pre: "pre = [] \<and> m Process = Some [] \<or>
      (\<exists>pr. pre = [pr] \<and> m Process \<noteq> Some [] \<and> section_id pr = Process \<and> order pr = 4)"
    and a: "section_id a = Action" "order a = 5" "map block_type (blocks a) = [Cta]"
      "map visibility (blocks a) = [\<lparr>initial = Expanded, priority = High\<rparr>]"
    using compose_fold [OF defined, where uuid = uuid and category = "opt_category options"
        and userId = "opt_userId options" and ttl = "opt_title options" and n = "Suc 0"]
    by auto
  have sorted: "sorted_wrt (\<lambda>x y. order x \<le> order y) ([h, c, w] @ pre @ [a])"
    using h c w pre a by auto
  have sort: "array_sort (\<lambda>x y. order x - order y) ([h, c, w] @ pre @ [a]) = [h, c, w] @ pre @ [a]"
    using sorted by (rule array_sort_asc_id)
  obtain p where p: "composePortfolio uuid isoNow scoredContent options = Inr p"
    and secs: "sections p = [h, c, w] @ pre @ [a]"
    by (simp add: composePortfolio_def generatePortfolioId_def generateId_def m fold sort Let_def
          del: append.simps)
  show ?thesis
    using p secs h c w pre a by (intro exI [of _ p] exI [of _ h] exI [of _ c] exI [of _ w]
        exI [of _ pre] exI [of _ a]) auto
qed

lemma composePortfolio_empty_eval:
  "\<exists>p h c w a b. composePortfolio uuid isoNow [] options = Inr p \<and> sections p = [h, c, w, a] \<and>
     section_id h = Hook \<and> blocks h = [] \<and>
     section_id c = Credibility \<and> blocks c = [] \<and>
     section_id w = Work \<and> blocks w = [] \<and>
     section_id a = Action \<and> blocks a = [b] \<and> block_type b = Cta"
  by (simp add: composePortfolio_def assignContentToSections_def SECTION_CONFIGS_def
        firstPass_def secondPass_def initAssignments_def composeStep_def buildSection_def
        buildCTASection_def findConfig_def generatePortfolioId_def generateBlockId_def
        generateId_def array_sort_def Let_def)

text \<open>
  C5: \<open>composePortfolio\<close> on an empty list of scored content raises no error.  The
  document it returns has four sections: hook, credibility and work, each with an empty
  list of blocks, and action with exactly one block, of type \<open>cta\<close>; there is no
  process section.
\<close>

theorem composePortfolio_empty_content:
  "\<exists>p h c w a b. composePortfolio uuid isoNow [] options = Inr p \<and> sections p = [h, c, w, a] \<and>
     section_id h = Hook \<and> blocks h = [] \<and>
     section_id c = Credibility \<and> blocks c = [] \<and>
     section_id w = Work \<and> blocks w = [] \<and>
     section_id a = Action \<and> blocks a = [b] \<and> block_type b = Cta \<and>
     Process \<notin> section_id ` set (sections p)"
proof -
  obtain p h c w a b where "composePortfolio uuid isoNow [] options = Inr p"
    "sections p = [h, c, w, a]" "section_id h = Hook" "blocks h = []"
    "section_id c = Credibility" "blocks c = []" "section_id w = Work" "blocks w = []"
    "section_id a = Action" "blocks a = [b]" "block_type b = Cta"
    using composePortfolio_empty_eval by blast
  then show ?thesis
    by (intro exI [of _ p] exI [of _ h] exI [of _ c] exI [of _ w] exI [of _ a] exI [of _ b]) simp
qed

text \<open>
  C8: for every input and every options record, \<open>composePortfolio\<close> returns a
  document whose sections are in strictly increasing order of their \<open>order\<close> field
  and among which the hook, credibility, work and action sections are present.  The
  process section may be absent: it is, on the empty input.
\<close>

theorem composePortfolio_sections_increasing:
  "(\<exists>p. composePortfolio uuid isoNow scoredContent options = Inr p \<and>
        sorted_wrt (<) (map order (sections p)) \<and>
        Hook \<in> section_id ` set (sections p) \<and>
        Credibility \<in> section_id ` set (sections p) \<and>
        Work \<in> section_id ` set (sections p) \<and>
        Action \<in> section_id ` set (sections p)) \<and>
   (\<exists>p0. composePortfolio uuid isoNow [] options = Inr p0 \<and>
         Process \<notin> section_id ` set (sections p0))"
proof
  obtain p h c w pre a where p: "composePortfolio uuid isoNow scoredContent options = Inr p"
    and secs: "sections p = [h, c, w] @ pre @ [a]"
    and f: "section_id h = Hook" "order h = 1" "section_id c = Credibility" "order c = 2"
      "section_id w = Work" "order w = 3"
      "pre = [] \<or> (\<exists>pr. pre = [pr] \<and> section_id pr = Process \<and> order pr = 4)"
      "section_id a = Action" "order a = 5"
    using composePortfolio_shape [of uuid isoNow scoredContent options] by auto
  have "sorted_wrt (<) (map order (sections p))"
    using secs f by auto
  moreover have "Hook \<in> section_id ` set (sections p)" "Credibility \<in> section_id ` set (sections p)"
    "Work \<in> section_id ` set (sections p)" "Action \<in> section_id ` set (sections p)"
    using secs f by (auto simp: image_iff)
  ultimately show "\<exists>p. composePortfolio uuid isoNow scoredContent options = Inr p \<and>
        sorted_wrt (<) (map order (sections p)) \<and>
        Hook \<in> section_id ` set (sections p) \<and>
        Credibility \<in> section_id ` set (sections p) \<and>
        Work \<in> section_id ` set (sections p) \<and>
        Action \<in> section_id ` set (sections p)"
    using p by simp
next
  obtain p h c w a b where "composePortfolio uuid isoNow [] options = Inr p"
    "sections p = [h, c, w, a]" "section_id h = Hook"
    "section_id c = Credibility" "section_id w = Work" "section_id a = Action"
    using composePortfolio_empty_eval by blast
  then show "\<exists>p0. composePortfolio uuid isoNow [] options = Inr p0 \<and>
         Process \<notin> section_id ` set (sections p0)"
    by simp
qed

text \<open>
  C9: in every portfolio that \<open>composePortfolio\<close> returns there is exactly one action
  section, and it holds exactly one block, whose type is \<open>cta\<close>.
\<close>

theorem composePortfolio_action_single_cta:
  "\<exists>p. composePortfolio uuid isoNow scoredContent options = Inr p \<and>
       map (\<lambda>s. map block_type (blocks s)) (filter (\<lambda>s. section_id s = Action) (sections p)) = [[Cta]]"
proof -
  obtain p h c w pre a where p: "composePortfolio uuid isoNow scoredContent options = Inr p"
    and secs: "sections p = [h, c, w] @ pre @ [a]"
    and f: "section_id h = Hook" "section_id c = Credibility" "section_id w = Work"
      "pre = [] \<or> (\<exists>pr. pre = [pr] \<and> section_id pr = Process \<and> order pr = 4)"
      "section_id a = Action" "map block_type (blocks a) = [Cta]"
    using composePortfolio_shape [of uuid isoNow scoredContent options] by auto
  have "map (\<lambda>s. map block_type (blocks s)) (filter (\<lambda>s. section_id s = Action) (sections p)) = [[Cta]]"
    using secs f by auto
  with p show ?thesis by simp
qed

lemma buildBlock_visibility:
  "visibility (fst (buildBlock uuid n content blockType sectionId)) =
     \<lparr>initial = (if sectionId = Hook then Expanded else Collapsed),
      priority = (if final_score content > fl (7/10) then High else Medium)\<rparr>"
proof (cases blockType)
  case None
  then show ?thesis
    by (simp add: buildBlock_def generateBlockId_def generateId_def renderBlock_def)
next
  case (Some t)
  then show ?thesis
    by (cases t)
       (simp_all add: buildBlock_def generateBlockId_def generateId_def renderBlock_def
          buildScrollContainerBlock_def buildCTABlock_def)
qed

text \<open>
  C10: in every portfolio that \<open>composePortfolio\<close> returns, the one block of the
  action section has visibility \<open>initial = expanded\<close> and \<open>priority = high\<close>;
  whereas \<open>buildBlock\<close>, called for the action section, gives any block the initial
  visibility \<open>collapsed\<close> and a priority that depends on the final score.
\<close>

theorem composePortfolio_cta_visibility:
  "(\<exists>p. composePortfolio uuid isoNow scoredContent options = Inr p \<and>
        map (\<lambda>s. map visibility (blocks s)) (filter (\<lambda>s. section_id s = Action) (sections p))
          = [[\<lparr>initial = Expanded, priority = High\<rparr>]]) \<and>
   visibility (fst (buildBlock uuid n content blockType Action)) =
     \<lparr>initial = Collapsed, priority = (if final_score content > fl (7/10) then High else Medium)\<rparr>"
proof
  obtain p h c w pre a where p: "composePortfolio uuid isoNow scoredContent options = Inr p"
    and secs: "sections p = [h, c, w] @ pre @ [a]"
    and f: "section_id h = Hook" "section_id c = Credibility" "section_id w = Work"
      "pre = [] \<or> (\<exists>pr. pre = [pr] \<and> section_id pr = Process \<and> order pr = 4)"
      "section_id a = Action"
      "map visibility (blocks a) = [\<lparr>initial = Expanded, priority = High\<rparr>]"
    using composePortfolio_shape [of uuid isoNow scoredContent options] by auto
  have "map (\<lambda>s. map visibility (blocks s)) (filter (\<lambda>s. section_id s = Action) (sections p))
          = [[\<lparr>initial = Expanded, priority = High\<rparr>]]"
    using secs f by auto
  with p show "\<exists>p. composePortfolio uuid isoNow scoredContent options = Inr p \<and>
        map (\<lambda>s. map visibility (blocks s)) (filter (\<lambda>s. section_id s = Action) (sections p))
          = [[\<lparr>initial = Expanded, priority = High\<rparr>]]"
    by simp
next
  show "visibility (fst (buildBlock uuid n content blockType Action)) =
     \<lparr>initial = Collapsed, priority = (if final_score content > fl (7/10) then High else Medium)\<rparr>"
    by (simp add: buildBlock_visibility)
qed

end
